theory Spec2Isabelle
  imports Complex_Main
begin

section \<open>Numbers and text\<close>

text \<open>
  Python's \<^verbatim>\<open>float\<close> values are modelled as exact real numbers: every sum, product and
  quotient below is the mathematical one, without binary rounding, and NaN and the
  infinities have no counterpart. Python's \<^verbatim>\<open>int\<close> is \<^typ>\<open>int\<close>, a \<^verbatim>\<open>str\<close> is a
  \<^typ>\<open>string\<close> of ASCII characters.
\<close>

definition is_digit :: "char \<Rightarrow> bool" where
  "is_digit c \<longleftrightarrow> 48 \<le> (of_char c :: nat) \<and> (of_char c :: nat) \<le> 57"

definition digit_val :: "char \<Rightarrow> nat" where
  "digit_val c = of_char c - 48"

text \<open>\<^verbatim>\<open>int(ds)\<close> for a string of decimal digits.\<close>

definition int_of_digits :: "string \<Rightarrow> nat" where
  "int_of_digits ds = foldl (\<lambda>a c. 10 * a + digit_val c) 0 ds"

text \<open>
  \<^verbatim>\<open>float(tok)\<close> for a token of the shape \<^verbatim>\<open>\d+\.?\d*\<close> or \<^verbatim>\<open>\d+\.\d+\<close>, the only strings
  the two regular expressions of the program hand to it: the integer part, then the
  digits after the point scaled by their number.
\<close>

definition py_float :: "string \<Rightarrow> real" where
  "py_float tok =
     (let ip = takeWhile is_digit tok;
          fp = drop 1 (dropWhile is_digit tok)
      in real (int_of_digits ip) + real (int_of_digits fp) / 10 ^ length fp)"

text \<open>\<^verbatim>\<open>int(x)\<close> for a float: truncation towards zero.\<close>

definition py_int :: "real \<Rightarrow> int" where
  "py_int x = (if 0 \<le> x then \<lfloor>x\<rfloor> else \<lceil>x\<rceil>)"

text \<open>\<^verbatim>\<open>c * n\<close> for a one-character string: empty when \<^verbatim>\<open>n\<close> is negative.\<close>

definition str_times :: "char \<Rightarrow> int \<Rightarrow> string" where
  "str_times c n = replicate (nat n) c"

text \<open>\<^verbatim>\<open>str(n)\<close> for a natural number, and for an integer.\<close>

definition digit_char :: "nat \<Rightarrow> char" where
  "digit_char d = ''0123456789'' ! d"

fun str_nat :: "nat \<Rightarrow> string" where
  "str_nat n = (if n < 10 then [digit_char n] else str_nat (n div 10) @ [digit_char (n mod 10)])"

declare str_nat.simps [simp del]

definition str_int :: "int \<Rightarrow> string" where
  "str_int i = (if i < 0 then ''-'' @ str_nat (nat (- i)) else str_nat (nat i))"

definition rjust :: "nat \<Rightarrow> char \<Rightarrow> string \<Rightarrow> string" where
  "rjust w c s = replicate (w - length s) c @ s"

text \<open>\<^verbatim>\<open>f'{i:02d}'\<close>: zero padding to two columns, the sign counted among them.\<close>

definition fmt_02d :: "int \<Rightarrow> string" where
  "fmt_02d i =
     (if i < 0 then ''-'' @ rjust 1 CHR ''0'' (str_nat (nat (- i)))
      else rjust 2 CHR ''0'' (str_nat (nat i)))"

text \<open>
  \<^verbatim>\<open>f'{x:.df}'\<close>: the value rounded to \<open>d\<close> digits after the point, a tie going to the
  even neighbour, and \<^verbatim>\<open>f'{x:6.2f}'\<close>, the same in at least six columns.
\<close>

definition round_half_even :: "real \<Rightarrow> int" where
  "round_half_even x =
     (let f = \<lfloor>x\<rfloor>; d = x - real_of_int f
      in if d < 1 / 2 then f
         else if 1 / 2 < d then f + 1
         else if even f then f else f + 1)"

definition fmt_f :: "nat \<Rightarrow> real \<Rightarrow> string" where
  "fmt_f d x =
     (let n = nat (round_half_even (\<bar>x\<bar> * 10 ^ d));
          ip = str_nat (n div 10 ^ d);
          fp = rjust d CHR ''0'' (str_nat (n mod 10 ^ d))
      in (if x < 0 then ''-'' else []) @ ip @ (if d = 0 then [] else ''.'' @ fp))"

definition fmt_6_2f :: "real \<Rightarrow> string" where
  "fmt_6_2f x = rjust 6 CHR '' '' (fmt_f 2 x)"

text \<open>The float operators \<^verbatim>\<open>x // y\<close> and \<^verbatim>\<open>x % y\<close> for a positive \<open>y\<close>.\<close>

definition py_floordiv :: "real \<Rightarrow> real \<Rightarrow> real" where
  "py_floordiv x y = real_of_int \<lfloor>x / y\<rfloor>"

definition py_mod :: "real \<Rightarrow> real \<Rightarrow> real" where
  "py_mod x y = x - y * real_of_int \<lfloor>x / y\<rfloor>"

section \<open>The pattern \<^verbatim>\<open>(\d+\.?\d*)%\<close>\<close>

text \<open>
  \<^verbatim>\<open>re.match\<close> of the pattern at the head of a string, returning group 1. Every string of
  the pattern's language is a run of digits, at most one point, a run of digits and the
  percent sign, so at a given start there is at most one match and backtracking cannot
  find another: the greedy run of digits is followed either by \<^verbatim>\<open>%\<close>, or by a point, a
  greedy run of digits and \<^verbatim>\<open>%\<close>.
\<close>

definition match_pct :: "string \<Rightarrow> string option" where
  "match_pct s =
     (let ds = takeWhile is_digit s; r = dropWhile is_digit s
      in if ds = [] then None
         else (case r of
                 [] \<Rightarrow> None
               | c # r' \<Rightarrow>
                   if c = CHR ''%'' then Some ds
                   else if c = CHR ''.'' then
                     (let fs = takeWhile is_digit r'
                      in (case dropWhile is_digit r' of
                            [] \<Rightarrow> None
                          | d # _ \<Rightarrow> if d = CHR ''%'' then Some (ds @ CHR ''.'' # fs) else None))
                   else None))"

text \<open>\<^verbatim>\<open>re.search\<close>: the match at the leftmost start that has one.\<close>

fun search_pct :: "string \<Rightarrow> string option" where
  "search_pct [] = None"
| "search_pct (c # cs) =
     (case match_pct (c # cs) of
        Some g \<Rightarrow> Some g
      | None \<Rightarrow> search_pct cs)"

text \<open>
  The language of the pattern, said directly: \<open>s\<close> begins with digits, at most one point,
  digits and the percent sign, and \<open>g\<close> is what stands before the percent sign.
\<close>

definition token_at :: "string \<Rightarrow> string \<Rightarrow> bool" where
  "token_at s g \<longleftrightarrow>
     (\<exists>ds fs rest. ds \<noteq> [] \<and> list_all is_digit ds \<and> list_all is_digit fs
        \<and> ((g = ds \<and> s = ds @ ''%'' @ rest)
           \<or> (g = ds @ ''.'' @ fs \<and> s = ds @ ''.'' @ fs @ ''%'' @ rest)))"

section \<open>Progress display\<close>

text \<open>
  What reaches the terminal is a list of chunks. \<open>Bar label bar pct\<close> is the formatted
  line \<^verbatim>\<open>f'\r  {label}: [{bar}] {pct:6.2f}%'\<close>, kept with its three parameters;
  \<open>Text s\<close> is any other string written. \<open>out_text\<close> is the string a chunk stands for.
\<close>

datatype out = Bar string string real | Text string

fun out_text :: "out \<Rightarrow> string" where
  "out_text (Bar label bar pct) =
     CHR 0x0D # ''  '' @ label @ '': ['' @ bar @ ''] '' @ fmt_6_2f pct @ ''%''"
| "out_text (Text s) = s"

text \<open>
  A \<^verbatim>\<open>ProgressCapture\<close> object. Its field \<^verbatim>\<open>original_stdout\<close> is \<^verbatim>\<open>sys.stdout\<close> as it was
  in the constructor; both objects of the program are constructed while \<^verbatim>\<open>sys.stdout\<close> is
  the terminal (at the entry of \<^verbatim>\<open>run_transcription\<close>, and after the \<^verbatim>\<open>finally\<close> of the
  inference phase), so what the object writes to \<^verbatim>\<open>original_stdout\<close> is what reaches the
  terminal, and the methods return the chunks written there.
\<close>

record ProgressCapture =
  phase_name :: string
  phase_start :: real
  phase_end :: real

definition bar_width :: int where
  "bar_width = 40"

text \<open>The bar of \<^verbatim>\<open>_render_bar\<close> and of \<^verbatim>\<open>print_progress_bar\<close> (the same code twice).\<close>

definition make_bar :: "real \<Rightarrow> string" where
  "make_bar pct =
     (let filled = py_int (real_of_int bar_width * pct / 100)
      in if filled < bar_width
         then str_times CHR ''='' filled @ ''>'' @ str_times CHR '' '' (bar_width - filled - 1)
         else str_times CHR ''='' bar_width)"

definition ProgressCapture_render_bar :: "ProgressCapture \<Rightarrow> real \<Rightarrow> out list" where
  "ProgressCapture_render_bar self pct = [Bar (phase_name self) (make_bar pct) pct]"

definition ProgressCapture_write :: "ProgressCapture \<Rightarrow> string \<Rightarrow> out list" where
  "ProgressCapture_write self text =
     (case search_pct text of
        Some g \<Rightarrow>
          (let local_pct = py_float g;
               overall_pct = phase_start self
                 + (local_pct / 100) * (phase_end self - phase_start self)
           in ProgressCapture_render_bar self overall_pct)
      | None \<Rightarrow> [])"

definition ProgressCapture_finish :: "ProgressCapture \<Rightarrow> out list" where
  "ProgressCapture_finish self =
     ProgressCapture_render_bar self (phase_end self) @ [Text ''\<newline>'']"

section \<open>The process state\<close>

text \<open>
  \<^verbatim>\<open>sys.stdout\<close> is the terminal or a \<^verbatim>\<open>ProgressCapture\<close>. The state of a run: the current
  \<^verbatim>\<open>sys.stdout\<close>, what has reached the terminal, the documents saved, the input and
  output path of every \<^verbatim>\<open>ffmpeg\<close> process started, the temporary directories that exist,
  and the argument of every call of \<^verbatim>\<open>shutil.rmtree\<close> so far.
\<close>

datatype stream = Terminal | Capture ProgressCapture

record segment =
  seg_start :: real
  seg_end :: real
  seg_text :: string

record document =
  doc_title :: string
  doc_meta :: "(string \<times> string) list"
  doc_body :: "(string \<times> string) list"
  doc_footer :: string

record world =
  sys_stdout :: stream
  terminal :: "out list"
  saved :: "(string \<times> document) list"
  ffmpeg_runs :: "string list list"
  tempdirs :: "string list"
  rmtree_calls :: "string list"

text \<open>\<^verbatim>\<open>sys.stdout.write(chunk)\<close>, and \<^verbatim>\<open>print(s)\<close>, which writes \<open>s\<close> and then the newline.\<close>

definition stdout_write :: "out \<Rightarrow> world \<Rightarrow> world" where
  "stdout_write chunk w =
     (case sys_stdout w of
        Terminal \<Rightarrow> w\<lparr>terminal := terminal w @ [chunk]\<rparr>
      | Capture pc \<Rightarrow> w\<lparr>terminal := terminal w @ ProgressCapture_write pc (out_text chunk)\<rparr>)"

definition print :: "string \<Rightarrow> world \<Rightarrow> world" where
  "print s w = stdout_write (Text ''\<newline>'') (stdout_write (Text s) w)"

definition print_progress_bar :: "string \<Rightarrow> real \<Rightarrow> world \<Rightarrow> world" where
  "print_progress_bar label pct w = stdout_write (Bar label (make_bar pct) pct) w"

definition finish_progress_bar :: "world \<Rightarrow> world" where
  "finish_progress_bar w = stdout_write (Text ''\<newline>'') w"

text \<open>
  The methods of a \<^verbatim>\<open>ProgressCapture\<close> write to the terminal whatever \<^verbatim>\<open>sys.stdout\<close> is.
\<close>

definition to_terminal :: "out list \<Rightarrow> world \<Rightarrow> world" where
  "to_terminal chunks w = w\<lparr>terminal := terminal w @ chunks\<rparr>"

section \<open>Exceptions\<close>

text \<open>
  \<open>Exception msg\<close> is any exception of the class \<^verbatim>\<open>Exception\<close> with its message;
  \<open>KeyboardInterrupt\<close> and \<open>SystemExit\<close> are the exceptions outside that class, which an
  \<^verbatim>\<open>except Exception\<close> clause does not catch. A call that may raise returns \<open>Inl\<close> of the
  exception or \<open>Inr\<close> of its value.
\<close>

datatype exn = Exception string | KeyboardInterrupt | SystemExit

fun is_Exception :: "exn \<Rightarrow> bool" where
  "is_Exception (Exception _) = True"
| "is_Exception _ = False"

fun exn_str :: "exn \<Rightarrow> string" where
  "exn_str (Exception msg) = msg"
| "exn_str _ = []"

section \<open>Utilities\<close>

definition format_timestamp :: "real \<Rightarrow> string" where
  "format_timestamp seconds =
     (let h = py_int (py_floordiv seconds 3600);
          m = py_int (py_floordiv (py_mod seconds 3600) 60);
          s = py_int (py_mod seconds 60)
      in if h > 0 then fmt_02d h @ '':'' @ fmt_02d m @ '':'' @ fmt_02d s
         else fmt_02d m @ '':'' @ fmt_02d s)"

text \<open>
  What the body of the \<^verbatim>\<open>try\<close> in \<^verbatim>\<open>get_duration_ffprobe\<close> does for a path: the subprocess
  call raises; or it returns text that \<^verbatim>\<open>float\<close> rejects with a \<^verbatim>\<open>ValueError\<close>; or it returns
  text with a float value.
\<close>

datatype probe = ProbeRaises exn | NonNumeric string | Numeric real

text \<open>The result is \<open>Inr None\<close> for Python's \<^verbatim>\<open>None\<close>.\<close>

definition get_duration_ffprobe :: "(string \<Rightarrow> probe) \<Rightarrow> string \<Rightarrow> exn + real option" where
  "get_duration_ffprobe ffprobe filepath =
     (case ffprobe filepath of
        ProbeRaises e \<Rightarrow> if is_Exception e then Inr None else Inl e
      | NonNumeric _ \<Rightarrow> Inr None
      | Numeric d \<Rightarrow> Inr (Some d))"

text \<open>The truth value of an optional float: \<^verbatim>\<open>None\<close> and \<^verbatim>\<open>0.0\<close> are false.\<close>

fun truthy :: "real option \<Rightarrow> bool" where
  "truthy None = False"
| "truthy (Some d) = (d \<noteq> 0)"

definition RTF_MAP :: "(string \<times> real) list" where
  "RTF_MAP =
     [(''tiny'', 0.6), (''base'', 1.0), (''small'', 1.6),
      (''medium'', 3.0), (''large'', 5.0), (''large-v3'', 5.0)]"

definition estimate_processing_time :: "real \<Rightarrow> string \<Rightarrow> string" where
  "estimate_processing_time duration_seconds model_size =
     (let rtf = (case map_of RTF_MAP model_size of Some r \<Rightarrow> r | None \<Rightarrow> 3.0);
          estimated = duration_seconds * rtf
      in if estimated < 60 then ''~'' @ str_int (py_int estimated) @ '' seconden''
         else if estimated < 3600 then ''~'' @ str_int (py_int (estimated / 60)) @ '' minuten''
         else ''~'' @ fmt_f 1 (estimated / 3600) @ '' uur'')"

section \<open>What the run meets\<close>

text \<open>
  Everything outside the program that a run depends on, fixed for one run: for each
  external call whether it raises or what it returns, and for the calls that print while
  they run (\<^verbatim>\<open>model.transcribe\<close>, \<^verbatim>\<open>whisperx.load_align_model\<close>, \<^verbatim>\<open>whisperx.align\<close>) the strings
  they hand to \<^verbatim>\<open>sys.stdout.write\<close>, in order, before they return or raise.
  \<open>ffmpeg_stderr\<close> are the lines read from the conversion's diagnostic stream and
  \<open>ffmpeg_exit\<close> what follows them: an exception, or the exit status. \<open>existing_paths\<close>
  are the paths that exist when the output name is chosen.
\<close>

record env =
  ffprobe :: "string \<Rightarrow> probe"
  os_getsize :: "string \<Rightarrow> exn + nat"
  ffmpeg_stderr :: "string list"
  ffmpeg_exit :: "exn + int"
  ffmpeg_compress :: "exn + unit"
  whisperx_load_model :: "exn + unit"
  whisperx_load_audio :: "exn + unit"
  transcribe_prints :: "string list"
  model_transcribe :: "exn + segment list \<times> string option"
  load_align_prints :: "string list"
  whisperx_load_align_model :: "exn + unit"
  align_prints :: "string list"
  whisperx_align :: "exn + segment list"
  existing_paths :: "string list"
  now_meta :: string
  now_footer :: string
  doc_save :: "exn + unit"
  time_elapsed :: real
  open_finder :: "exn + unit"
  home :: string
  mkdtemp :: string
  shutil_rmtree :: "exn + unit"

text \<open>
  The file selected, with what \<^verbatim>\<open>pathlib.Path\<close> reports for it: \<^verbatim>\<open>name\<close>, \<^verbatim>\<open>stem\<close> and
  \<^verbatim>\<open>suffix\<close>.
\<close>

record source =
  file_path :: string
  file_name :: string
  file_stem :: string
  file_suffix :: string

text \<open>A call that raises ends the rest of the block; \<open>seq\<close> runs the rest otherwise.\<close>

definition seq :: "(exn + 'a) \<times> world \<Rightarrow> ('a \<Rightarrow> world \<Rightarrow> (exn + 'b) \<times> world) \<Rightarrow> (exn + 'b) \<times> world" where
  "seq m f = (case m of (Inl e, w) \<Rightarrow> (Inl e, w) | (Inr x, w) \<Rightarrow> f x w)"

text \<open>A call that writes the given strings to \<^verbatim>\<open>sys.stdout\<close> while it runs.\<close>

fun writes :: "string list \<Rightarrow> world \<Rightarrow> world" where
  "writes [] w = w"
| "writes (text # texts) w = writes texts (stdout_write (Text text) w)"

definition path_join :: "string \<Rightarrow> string \<Rightarrow> string" where
  "path_join a b = a @ ''/'' @ b"

section \<open>The pattern \<^verbatim>\<open>time=(\d+):(\d+):(\d+\.\d+)\<close>\<close>

text \<open>
  The match at the head of a string, with its three groups. Each run of digits must be
  followed by the character the pattern names next, so it is the whole run; the last
  run is greedy and nothing follows it in the pattern.
\<close>

definition match_time :: "string \<Rightarrow> (string \<times> string \<times> string) option" where
  "match_time s =
     (if take 5 s \<noteq> ''time='' then None
      else
        (let r0 = drop 5 s;
             h = takeWhile is_digit r0; r1 = dropWhile is_digit r0
         in if h = [] \<or> take 1 r1 \<noteq> '':'' then None
            else
              (let r2 = drop 1 r1;
                   m = takeWhile is_digit r2; r3 = dropWhile is_digit r2
               in if m = [] \<or> take 1 r3 \<noteq> '':'' then None
                  else
                    (let r4 = drop 1 r3;
                         si = takeWhile is_digit r4; r5 = dropWhile is_digit r4
                     in if si = [] \<or> take 1 r5 \<noteq> ''.'' then None
                        else
                          (let sf = takeWhile is_digit (drop 1 r5)
                           in if sf = [] then None
                              else Some (h, m, si @ ''.'' @ sf))))))"

fun search_time :: "string \<Rightarrow> (string \<times> string \<times> string) option" where
  "search_time [] = None"
| "search_time (c # cs) =
     (case match_time (c # cs) of
        Some g \<Rightarrow> Some g
      | None \<Rightarrow> search_time cs)"

section \<open>Audio and video processing\<close>

definition SUPPORTED_VIDEO :: "string list" where
  "SUPPORTED_VIDEO = [''.mp4'', ''.mov'', ''.avi'', ''.mkv'', ''.webm'', ''.flv'', ''.wmv'']"

definition ascii_lower :: "char \<Rightarrow> char" where
  "ascii_lower c =
     (if 65 \<le> (of_char c :: nat) \<and> (of_char c :: nat) \<le> 90
      then char_of (of_char c + 32 :: nat) else c)"

definition lower :: "string \<Rightarrow> string" where
  "lower s = map ascii_lower s"

text \<open>\<^verbatim>\<open>is_video\<close>, applied to \<^verbatim>\<open>Path(filepath).suffix\<close>.\<close>

definition is_video :: "string \<Rightarrow> bool" where
  "is_video suffix \<longleftrightarrow> lower suffix \<in> set SUPPORTED_VIDEO"

text \<open>One pass of the loop over the lines of the diagnostic stream.\<close>

definition conversion_line :: "real option \<Rightarrow> string \<Rightarrow> world \<Rightarrow> world" where
  "conversion_line duration line w =
     (case search_time line of
        None \<Rightarrow> w
      | Some (h, m, s) \<Rightarrow>
          (case duration of
             None \<Rightarrow> w
           | Some d \<Rightarrow>
               if d \<noteq> 0 \<and> d > 0 then
                 (let current = real (int_of_digits h) * 3600 + real (int_of_digits m) * 60
                        + py_float s;
                      pct = min (current / d * 100) 100;
                      overall = 5.0 + (pct / 100.0) * 10.0
                  in print_progress_bar ''Video conversie'' overall w)
               else w))"

fun conversion_lines :: "real option \<Rightarrow> string list \<Rightarrow> world \<Rightarrow> world" where
  "conversion_lines duration [] w = w"
| "conversion_lines duration (line # lines) w =
     conversion_lines duration lines (conversion_line duration line w)"

definition convert_video_to_audio ::
    "env \<Rightarrow> source \<Rightarrow> string \<Rightarrow> world \<Rightarrow> (exn + string) \<times> world" where
  "convert_video_to_audio x video temp_dir w =
     (let output_path = path_join temp_dir (file_stem video @ ''.wav'')
      in seq (get_duration_ffprobe (ffprobe x) (file_path video), w) (\<lambda>duration w.
           (let w = w\<lparr>ffmpeg_runs := ffmpeg_runs w @ [ [file_path video, output_path] ]\<rparr>;
                w = conversion_lines duration (ffmpeg_stderr x) w
            in (case ffmpeg_exit x of
                  Inl e \<Rightarrow> (Inl e, w)
                | Inr returncode \<Rightarrow>
                    if returncode \<noteq> 0 then (Inl (Exception ''ffmpeg video conversie mislukt''), w)
                    else
                      (let w = print_progress_bar ''Video conversie'' 15.00 w;
                           w = finish_progress_bar w
                       in (Inr output_path, w))))))"

definition compress_audio_if_needed ::
    "env \<Rightarrow> string \<Rightarrow> string \<Rightarrow> world \<Rightarrow> (exn + string) \<times> world" where
  "compress_audio_if_needed x audio_path temp_dir w =
     seq (os_getsize x audio_path, w) (\<lambda>size w.
       (let file_size_mb = real size / (1024 * 1024)
        in if file_size_mb < 500 then (Inr audio_path, w)
           else
             (let w = print (''  Groot bestand ('' @ fmt_f 0 file_size_mb
                        @ ''MB), wordt gecomprimeerd...'') w;
                  output_path = path_join temp_dir ''compressed_audio.wav'';
                  w = w\<lparr>ffmpeg_runs := ffmpeg_runs w @ [ [audio_path, output_path] ]\<rparr>
              in seq (ffmpeg_compress x, w) (\<lambda>_ w.
                   seq (os_getsize x output_path, w) (\<lambda>new_size w.
                     (let new_size_mb = real new_size / (1024 * 1024);
                          w = print (''  Gecomprimeerd: '' @ fmt_f 0 file_size_mb @ ''MB -> ''
                                @ fmt_f 0 new_size_mb @ ''MB'') w
                      in (Inr output_path, w)))))))"

section \<open>Transcription\<close>

text \<open>The two capture objects that \<^verbatim>\<open>run_transcription\<close> constructs.\<close>

definition progress :: ProgressCapture where
  "progress = \<lparr>phase_name = ''Transcriptie'', phase_start = 15.0, phase_end = 70.0\<rparr>"

definition align_progress :: ProgressCapture where
  "align_progress = \<lparr>phase_name = ''Uitlijning'', phase_start = 70.0, phase_end = 90.0\<rparr>"

text \<open>
  Phase 3 of \<^verbatim>\<open>run_transcription\<close>: \<^verbatim>\<open>sys.stdout\<close> is set to the capture, the call runs, and
  the \<^verbatim>\<open>finally\<close> clause puts \<^verbatim>\<open>old_stdout\<close> back whether the call returned or raised.
\<close>

definition inference_phase ::
    "env \<Rightarrow> world \<Rightarrow> (exn + segment list \<times> string option) \<times> world" where
  "inference_phase x w =
     (let old_stdout = sys_stdout w;
          w = w\<lparr>sys_stdout := Capture progress\<rparr>;
          w = writes (transcribe_prints x) w;
          result = model_transcribe x;
          w = w\<lparr>sys_stdout := old_stdout\<rparr>
      in (case result of
            Inl e \<Rightarrow> (Inl e, w)
          | Inr r \<Rightarrow> (Inr r, to_terminal (ProgressCapture_finish progress) w)))"

text \<open>
  Phase 4: the two calls in the \<^verbatim>\<open>try\<close>; the clause \<^verbatim>\<open>except Exception\<close>, which puts
  \<^verbatim>\<open>old_stdout\<close> back, prints the warning and takes the segments of phase 3; the \<^verbatim>\<open>else\<close>
  clause, which puts \<^verbatim>\<open>old_stdout\<close> back. An exception outside the class \<^verbatim>\<open>Exception\<close>
  meets neither clause and leaves the function.
\<close>

definition alignment_phase ::
    "env \<Rightarrow> segment list \<Rightarrow> world \<Rightarrow> (exn + segment list) \<times> world" where
  "alignment_phase x segments w =
     (let old_stdout = sys_stdout w;
          w = w\<lparr>sys_stdout := Capture align_progress\<rparr>;
          (tried, w) =
            seq (whisperx_load_align_model x, writes (load_align_prints x) w) (\<lambda>_ w.
              (whisperx_align x, writes (align_prints x) w))
      in (case tried of
            Inl e \<Rightarrow>
              if is_Exception e then
                (let w = w\<lparr>sys_stdout := old_stdout\<rparr>;
                     w = print (''\<newline>  Waarschuwing: Uitlijning mislukt ('' @ exn_str e
                           @ ''), ruwe segmenten worden gebruikt.'') w
                 in (Inr segments, to_terminal (ProgressCapture_finish align_progress) w))
              else (Inl e, w)
          | Inr aligned \<Rightarrow>
              (let w = w\<lparr>sys_stdout := old_stdout\<rparr>
               in (Inr aligned, to_terminal (ProgressCapture_finish align_progress) w))))"

definition run_transcription ::
    "env \<Rightarrow> string \<Rightarrow> string \<Rightarrow> string \<Rightarrow> world \<Rightarrow> (exn + segment list \<times> string) \<times> world" where
  "run_transcription x audio_path model_size language w =
     (let w = print_progress_bar ''Model laden'' 0.00 w
      in seq (whisperx_load_model x, w) (\<lambda>_ w.
           (let w = print_progress_bar ''Model laden'' 10.00 w;
                w = finish_progress_bar w;
                w = print_progress_bar ''Audio laden'' 10.00 w
            in seq (whisperx_load_audio x, w) (\<lambda>_ w.
                 (let w = print_progress_bar ''Audio laden'' 15.00 w;
                      w = finish_progress_bar w
                  in seq (inference_phase x w) (\<lambda>(segments, reported) w.
                       (let detected_language =
                              (case reported of Some l \<Rightarrow> l | None \<Rightarrow> language);
                            w = print (''  Taal: '' @ detected_language @ '', Segmenten: ''
                                  @ str_nat (length segments)) w
                        in seq (alignment_phase x segments w) (\<lambda>aligned w.
                             (Inr (aligned, detected_language), w)))))))))"

section \<open>Word export\<close>

record metadata =
  md_title :: string
  md_filename :: string
  md_duration_str :: string
  md_model :: string
  md_language :: string

definition is_space :: "char \<Rightarrow> bool" where
  "is_space c \<longleftrightarrow> (of_char c :: nat) \<in> {9, 10, 11, 12, 13, 28, 29, 30, 31, 32}"

definition strip :: "string \<Rightarrow> string" where
  "strip s = rev (dropWhile is_space (rev (dropWhile is_space s)))"

text \<open>
  The document is kept as its title, the rows of the table, the paragraphs of the
  transcript (time stamp and text) and the footer; fonts and alignment are left out.
  \<open>doc_save\<close> says whether the calls of the document library raise.
\<close>

definition export_to_word ::
    "env \<Rightarrow> segment list \<Rightarrow> metadata \<Rightarrow> string \<Rightarrow> world \<Rightarrow> (exn + string) \<times> world" where
  "export_to_word x segments md output_path w =
     (let meta_items =
            [(''Bestand'', md_filename md), (''Duur'', md_duration_str md),
             (''Model'', md_model md), (''Taal'', md_language md), (''Datum'', now_meta x)];
          body =
            map (\<lambda>seg. (''['' @ format_timestamp (seg_start seg) @ ''] '', strip (seg_text seg)))
              (filter (\<lambda>seg. strip (seg_text seg) \<noteq> []) segments);
          doc = \<lparr>doc_title = md_title md, doc_meta = meta_items, doc_body = body,
                 doc_footer = ''Gegenereerd op '' @ now_footer x @ '' met CML Transcriptie Tool''\<rparr>
      in seq (doc_save x, w) (\<lambda>_ w.
           (Inr output_path, w\<lparr>saved := saved w @ [(output_path, doc)]\<rparr>)))"

section \<open>The output name\<close>

text \<open>The path tried for a value of \<^verbatim>\<open>counter\<close>.\<close>

definition candidate :: "string \<Rightarrow> string \<Rightarrow> nat \<Rightarrow> string" where
  "candidate output_dir stem counter =
     path_join output_dir (stem @ ''_'' @ str_nat counter @ ''.docx'')"

lemma digit_char_inj: "a < 10 \<Longrightarrow> b < 10 \<Longrightarrow> digit_char a = digit_char b \<Longrightarrow> a = b"
proof -
  assume a: "a < 10" and b: "b < 10" and eq: "digit_char a = digit_char b"
  have d: "distinct ''0123456789''" by simp
  have "''0123456789'' ! a = ''0123456789'' ! b" using eq by (simp add: digit_char_def)
  with d a b show "a = b" by (simp add: nth_eq_iff_index_eq)
qed

lemma str_nat_nonempty: "str_nat n \<noteq> []"
  by (subst str_nat.simps) simp

lemma str_nat_last: "last (str_nat n) = digit_char (n mod 10)"
  by (subst str_nat.simps) simp

lemma str_nat_butlast: "butlast (str_nat n) = (if n < 10 then [] else str_nat (n div 10))"
  by (subst str_nat.simps) simp

lemma str_nat_inj: "str_nat n = str_nat m \<Longrightarrow> n = m"
proof (induction n arbitrary: m rule: str_nat.induct)
  case (1 n)
  from "1.prems" have "digit_char (n mod 10) = digit_char (m mod 10)"
    by (metis str_nat_last)
  then have units: "n mod 10 = m mod 10"
    by (intro digit_char_inj) simp_all
  from "1.prems" have front:
    "(if n < 10 then [] else str_nat (n div 10)) = (if m < 10 then [] else str_nat (m div 10))"
    by (metis str_nat_butlast)
  show ?case
  proof (cases "n < 10")
    case True
    with front have "m < 10"
      using str_nat_nonempty [of "m div 10"] by (cases "m < 10") auto
    with True units show ?thesis by simp
  next
    case False
    with front have eq: "str_nat (n div 10) = str_nat (m div 10)"
      using str_nat_nonempty [of "n div 10"] by (cases "m < 10") auto
    from "1.IH" [OF False eq] have "n div 10 = m div 10" .
    with units show ?thesis by (metis div_mult_mod_eq)
  qed
qed

lemma candidate_inj: "candidate d s j = candidate d s k \<Longrightarrow> j = k"
  by (simp add: candidate_def path_join_def str_nat_inj)

lemma finite_candidates: "finite {k. candidate d s k \<in> set existing}"
proof -
  have "inj (candidate d s)" by (rule injI) (rule candidate_inj)
  then have "finite (candidate d s -` set existing)" by (intro finite_vimageI) simp_all
  then show ?thesis by (simp add: vimage_def)
qed

text \<open>
  The loop \<^verbatim>\<open>while output_path.exists()\<close>. The paths that exist are finitely many and the
  candidates are pairwise different, so the loop ends: each pass uses up one existing
  path.
\<close>

function collision_loop :: "string list \<Rightarrow> string \<Rightarrow> string \<Rightarrow> string \<Rightarrow> nat \<Rightarrow> string" where
  "collision_loop existing output_dir stem output_path counter =
     (if output_path \<in> set existing
      then collision_loop existing output_dir stem (candidate output_dir stem counter) (counter + 1)
      else output_path)"
  by pat_completeness auto
termination
proof (relation "measure (\<lambda>(existing, output_dir, stem, output_path, counter).
    card {k. counter \<le> k \<and> candidate output_dir stem k \<in> set existing}
    + (if output_path \<in> set existing then 1 else 0))")
  show "wf (measure (\<lambda>(existing, output_dir, stem, output_path, counter).
    card {k. counter \<le> k \<and> candidate output_dir stem k \<in> set existing}
    + (if output_path \<in> set existing then 1 else 0)))" by simp
next
  fix existing :: "string list" and output_dir stem output_path :: string and counter :: nat
  assume here: "output_path \<in> set existing"
  let ?A = "\<lambda>c. {k. c \<le> k \<and> candidate output_dir stem k \<in> set existing}"
  have fin: "finite (?A counter)"
    by (rule finite_subset [OF _ finite_candidates [of output_dir stem existing] ]) auto
  have split: "?A counter = (if candidate output_dir stem counter \<in> set existing
      then insert counter (?A (counter + 1)) else ?A (counter + 1))"
    by (auto simp: le_Suc_eq Suc_le_eq less_le)
  have notin: "counter \<notin> ?A (counter + 1)" by simp
  have fin': "finite (?A (counter + 1))"
    by (rule finite_subset [OF _ fin]) auto
  have "card (?A (counter + 1)) + (if candidate output_dir stem counter \<in> set existing then 1 else 0)
      = card (?A counter)"
    using fin' notin by (subst split) (simp del: One_nat_def)
  with here
  show "((existing, output_dir, stem, candidate output_dir stem counter, counter + 1),
         (existing, output_dir, stem, output_path, counter))
        \<in> measure (\<lambda>(existing, output_dir, stem, output_path, counter).
    card {k. counter \<le> k \<and> candidate output_dir stem k \<in> set existing}
    + (if output_path \<in> set existing then 1 else 0))"
    by simp
qed

declare collision_loop.simps [simp del]

definition resolve_output_path :: "string list \<Rightarrow> string \<Rightarrow> string \<Rightarrow> string" where
  "resolve_output_path existing output_dir stem =
     (let output_path = path_join output_dir (stem @ ''.docx'');
          counter = 1
      in collision_loop existing output_dir stem output_path counter)"

section \<open>Main\<close>

text \<open>
  \<^verbatim>\<open>main\<close> from the point where a file has been selected (the prompts for language and
  model and the file dialog come before and hand over \<open>language_code\<close>,
  \<open>language_name\<close>, \<open>model_size\<close> and the file). \<^verbatim>\<open>print()\<close> writes the newline only.
\<close>

definition print_newline :: "world \<Rightarrow> world" where
  "print_newline w = stdout_write (Text ''\<newline>'') w"

text \<open>File information and time estimate; the result is \<^verbatim>\<open>duration_str\<close>.\<close>

definition main_info :: "env \<Rightarrow> source \<Rightarrow> string \<Rightarrow> world \<Rightarrow> (exn + string) \<times> world" where
  "main_info x src model_size w =
     seq (os_getsize x (file_path src), w) (\<lambda>size w.
       (let file_size_mb = real size / (1024 * 1024);
            w = print (''  Bestand: '' @ file_name src @ '' ('' @ fmt_f 1 file_size_mb
                  @ '' MB)'') w
        in seq (get_duration_ffprobe (ffprobe x) (file_path src), w) (\<lambda>duration w.
             (let (duration_str, w) =
                    (if truthy duration then
                       (case duration of
                          Some d \<Rightarrow>
                            (let duration_str = format_timestamp d;
                                 est = estimate_processing_time d model_size;
                                 w = print (''  Duur: '' @ duration_str) w;
                                 w = print (''  Geschatte verwerkingstijd: '' @ est) w
                             in (duration_str, w))
                        | None \<Rightarrow> (''Onbekend'', w))
                     else (''Onbekend'', w));
                  w = print ''  Device: CPU (Intel)'' w;
                  w = print ''  Compute: float32'' w;
                  w = print_newline w
              in (Inr duration_str, w)))))"

text \<open>
  The body of the \<^verbatim>\<open>try\<close> statement, in three parts. Steps 1 to 3: the audio file to
  transcribe and the duration string.
\<close>

definition prepare_audio ::
    "env \<Rightarrow> source \<Rightarrow> string \<Rightarrow> string \<Rightarrow> world \<Rightarrow> (exn + string \<times> string) \<times> world" where
  "prepare_audio x src duration_str temp_dir w =
     seq (if is_video (file_suffix src)
          then convert_video_to_audio x src temp_dir
                 (print ''  Video gedetecteerd, audio extraheren...'' w)
          else (Inr (file_path src), w)) (\<lambda>audio_path w.
       seq (compress_audio_if_needed x audio_path temp_dir w) (\<lambda>audio_path w.
         seq (get_duration_ffprobe (ffprobe x) audio_path, w) (\<lambda>audio_duration w.
           (let duration_str =
                  (if truthy audio_duration then
                     (case audio_duration of
                        Some d \<Rightarrow> format_timestamp d
                      | None \<Rightarrow> duration_str)
                   else duration_str)
            in (Inr (audio_path, duration_str), w)))))"

text \<open>Step 5 and the closing report.\<close>

definition export_step ::
    "env \<Rightarrow> source \<Rightarrow> string \<Rightarrow> string \<Rightarrow> string \<Rightarrow> segment list \<Rightarrow> world
      \<Rightarrow> (exn + unit) \<times> world" where
  "export_step x src model_size language_name duration_str segments w =
     (let w = print_progress_bar ''Word export'' 90.00 w;
          output_dir = path_join (home x) ''Downloads'';
          output_path = resolve_output_path (existing_paths x) output_dir (file_stem src);
          md = \<lparr>md_title = file_stem src, md_filename = file_name src,
                md_duration_str = duration_str, md_model = model_size,
                md_language = language_name\<rparr>
      in seq (export_to_word x segments md output_path w) (\<lambda>_ w.
           (let w = print_progress_bar ''Word export'' 100.00 w;
                w = finish_progress_bar w;
                elapsed_str = format_timestamp (time_elapsed x);
                w = print_newline w;
                w = print ''============================================'' w;
                w = print ''  VOLTOOID!'' w;
                w = print (''  Verwerkingstijd: '' @ elapsed_str) w;
                w = print (''  Output: '' @ output_path) w;
                w = print ''============================================'' w;
                w = print_newline w
            in seq (open_finder x, w) (\<lambda>_ w. (Inr (), w)))))"

text \<open>The whole body: the three parts around step 4, \<^verbatim>\<open>run_transcription\<close>.\<close>

definition processing ::
    "env \<Rightarrow> source \<Rightarrow> string \<Rightarrow> string \<Rightarrow> string \<Rightarrow> string \<Rightarrow> string \<Rightarrow> world
      \<Rightarrow> (exn + unit) \<times> world" where
  "processing x src model_size language_code language_name duration_str temp_dir w =
     (let w = print ''Verwerking gestart...'' w;
          w = print_newline w
      in seq (prepare_audio x src duration_str temp_dir w) (\<lambda>(audio_path, duration_str) w.
           seq (run_transcription x audio_path model_size language_code w)
             (\<lambda>(segments, detected_lang) w.
               export_step x src model_size language_name duration_str segments w)))"

text \<open>
  The temporary directory and the \<^verbatim>\<open>try\<close> statement around the body: the two \<^verbatim>\<open>except\<close>
  clauses, and the \<^verbatim>\<open>finally\<close> clause with its own \<^verbatim>\<open>try\<close> around \<^verbatim>\<open>shutil.rmtree\<close>. The
  trace-back goes to the error stream, which is not part of the state.
\<close>

definition main_processing ::
    "env \<Rightarrow> source \<Rightarrow> string \<Rightarrow> string \<Rightarrow> string \<Rightarrow> string \<Rightarrow> world \<Rightarrow> (exn + unit) \<times> world" where
  "main_processing x src model_size language_code language_name duration_str w =
     (let temp_dir = mkdtemp x;
          w = w\<lparr>tempdirs := temp_dir # tempdirs w\<rparr>;
          (body, w) = processing x src model_size language_code language_name duration_str
                        temp_dir w;
          (after, w) =
            (case body of
               Inl KeyboardInterrupt \<Rightarrow>
                 (Inr (), print ''\<newline>\<newline>  Afgebroken door gebruiker.'' w)
             | Inl (Exception msg) \<Rightarrow> (Inr (), print (''\<newline>\<newline>  FOUT: '' @ msg) w)
             | Inl SystemExit \<Rightarrow> (Inl SystemExit, w)
             | Inr _ \<Rightarrow> (Inr (), w));
          w = w\<lparr>rmtree_calls := rmtree_calls w @ [temp_dir]\<rparr>
      in (case shutil_rmtree x of
            Inr _ \<Rightarrow> (after, w\<lparr>tempdirs := removeAll temp_dir (tempdirs w)\<rparr>)
          | Inl e \<Rightarrow> if is_Exception e then (after, w) else (Inl e, w)))"

definition main ::
    "env \<Rightarrow> source \<Rightarrow> string \<Rightarrow> string \<Rightarrow> string \<Rightarrow> world \<Rightarrow> (exn + unit) \<times> world" where
  "main x src model_size language_code language_name w =
     seq (main_info x src model_size w) (\<lambda>duration_str w.
       main_processing x src model_size language_code language_name duration_str w)"

text \<open>The state in which the program starts.\<close>

definition initial_world :: world where
  "initial_world =
     \<lparr>sys_stdout = Terminal, terminal = [], saved = [], ffmpeg_runs = [], tempdirs = [],
      rmtree_calls = []\<rparr>"

text \<open>The percentages of the bars that have reached the terminal, in order.\<close>

fun rendered :: "out list \<Rightarrow> real list" where
  "rendered [] = []"
| "rendered (Bar label bar pct # chunks) = pct # rendered chunks"
| "rendered (Text s # chunks) = rendered chunks"

section \<open>The phases and their ranges\<close>

text \<open>
  The sub-range of each phase in the order of the run: model load and audio load from the
  two calls of \<^verbatim>\<open>print_progress_bar\<close> around each, inference and alignment from the two
  capture objects, export from the two calls of \<^verbatim>\<open>print_progress_bar\<close> around it.
\<close>

definition pipeline_phases :: "(real \<times> real) list" where
  "pipeline_phases =
     [(0.00, 10.00), (10.00, 15.00),
      (phase_start progress, phase_end progress),
      (phase_start align_progress, phase_end align_progress),
      (90.00, 100.00)]"

text \<open>
  Each range ends where the next begins; each range has its start below its end; every
  range ends at or before the start of every later one.
\<close>

fun contiguous :: "(real \<times> real) list \<Rightarrow> bool" where
  "contiguous (a # b # rs) = (snd a = fst b \<and> contiguous (b # rs))"
| "contiguous _ = True"

definition increasing :: "(real \<times> real) list \<Rightarrow> bool" where
  "increasing rs = list_all (\<lambda>r. fst r < snd r) rs"

fun non_overlapping :: "(real \<times> real) list \<Rightarrow> bool" where
  "non_overlapping [] = True"
| "non_overlapping (a # rs) = (list_all (\<lambda>b. snd a \<le> fst b) rs \<and> non_overlapping rs)"

section \<open>Reported progress\<close>

text \<open>
  The local percentages that a capture finds in the strings written to it, in order; a
  sequence of strings is steady when these never decrease and none is above 100.
  \<open>rescale\<close> is the arithmetic of \<^verbatim>\<open>write\<close>.
\<close>

fun local_pcts :: "string list \<Rightarrow> real list" where
  "local_pcts [] = []"
| "local_pcts (t # ts) =
     (case search_pct t of
        Some g \<Rightarrow> py_float g # local_pcts ts
      | None \<Rightarrow> local_pcts ts)"

definition steady :: "string list \<Rightarrow> bool" where
  "steady ts \<longleftrightarrow> sorted (local_pcts ts) \<and> list_all (\<lambda>p. p \<le> 100) (local_pcts ts)"

text \<open>
  From one state of the terminal to a later one, the percentages rendered in between are
  in non-decreasing order and lie between \<open>lo\<close> and \<open>hi\<close>.
\<close>

definition advances :: "real \<Rightarrow> real \<Rightarrow> out list \<Rightarrow> out list \<Rightarrow> bool" where
  "advances lo hi t t' \<longleftrightarrow>
     (\<exists>d. rendered t' = rendered t @ d \<and> sorted d \<and> list_all (\<lambda>p. lo \<le> p \<and> p \<le> hi) d)"

definition rescale :: "ProgressCapture \<Rightarrow> real \<Rightarrow> real" where
  "rescale pc p = phase_start pc + (p / 100) * (phase_end pc - phase_start pc)"

section \<open>Example runs\<close>

text \<open>
  A run in which every external call succeeds: a recording of one minute and about one
  megabyte, three segments, progress lines from inference and alignment.
\<close>

definition three_segments :: "segment list" where
  "three_segments =
     [\<lparr>seg_start = 0, seg_end = 2.5, seg_text = '' Goedemorgen.''\<rparr>,
      \<lparr>seg_start = 2.5, seg_end = 4, seg_text = '' Welkom.''\<rparr>,
      \<lparr>seg_start = 4, seg_end = 7.25, seg_text = '' We beginnen.''\<rparr>]"

definition aligned_segments :: "segment list" where
  "aligned_segments =
     [\<lparr>seg_start = 0.25, seg_end = 2.25, seg_text = '' Goedemorgen.''\<rparr>,
      \<lparr>seg_start = 2.75, seg_end = 3.5, seg_text = '' Welkom.''\<rparr>,
      \<lparr>seg_start = 4.5, seg_end = 7, seg_text = '' We beginnen.''\<rparr>]"

definition example_env :: env where
  "example_env =
     \<lparr>ffprobe = (\<lambda>_. Numeric 60), os_getsize = (\<lambda>_. Inr 1000000),
      ffmpeg_stderr = [''frame=1 time=00:00:30.00 bitrate=256kbits/s''], ffmpeg_exit = Inr 0,
      ffmpeg_compress = Inr (),
      whisperx_load_model = Inr (), whisperx_load_audio = Inr (),
      transcribe_prints = [''Progress: 50.00%...'', ''\<newline>''],
      model_transcribe = Inr (three_segments, Some ''nl''),
      load_align_prints = [], whisperx_load_align_model = Inr (),
      align_prints = [''Progress: 25.00%...'', ''\<newline>''],
      whisperx_align = Inr aligned_segments,
      existing_paths = [], now_meta = ''05/11/2026 10:00'', now_footer = ''05/11/2026 10:00'',
      doc_save = Inr (), time_elapsed = 75, open_finder = Inr (),
      home = ''/Users/u'', mkdtemp = ''/tmp/cml_transcriptie_a1'', shutil_rmtree = Inr ()\<rparr>"

definition talk_wav :: source where
  "talk_wav =
     \<lparr>file_path = ''/Users/u/talk.wav'', file_name = ''talk.wav'', file_stem = ''talk'',
      file_suffix = ''.wav''\<rparr>"

definition talk_mp4 :: source where
  "talk_mp4 =
     \<lparr>file_path = ''/Users/u/talk.mp4'', file_name = ''talk.mp4'', file_stem = ''talk'',
      file_suffix = ''.mp4''\<rparr>"

section \<open>The search finds the leftmost token\<close>

lemma not_digit_percent_point: "\<not> is_digit CHR ''%''" "\<not> is_digit CHR ''.''"
  by (simp_all add: is_digit_def)

lemma takeWhile_digits:
  "list_all is_digit ds \<Longrightarrow> \<not> is_digit c \<Longrightarrow> takeWhile is_digit (ds @ c # rest) = ds"
  by (simp add: list_all_iff takeWhile_append2)

lemma dropWhile_digits:
  "list_all is_digit ds \<Longrightarrow> \<not> is_digit c \<Longrightarrow> dropWhile is_digit (ds @ c # rest) = c # rest"
  by (simp add: list_all_iff dropWhile_append2)

lemma takeWhile_all_digits: "list_all is_digit (takeWhile is_digit s)"
  by (induction s) simp_all

lemma match_pct_complete:
  assumes "token_at s g"
  shows "match_pct s = Some g"
proof -
  from assms obtain ds fs rest where ds: "ds \<noteq> []" "list_all is_digit ds"
    and fs: "list_all is_digit fs"
    and shape: "(g = ds \<and> s = ds @ ''%'' @ rest)
           \<or> (g = ds @ ''.'' @ fs \<and> s = ds @ ''.'' @ fs @ ''%'' @ rest)"
    unfolding token_at_def by blast
  from shape show ?thesis
  proof
    assume "g = ds \<and> s = ds @ ''%'' @ rest"
    then show ?thesis
      using ds by (simp add: match_pct_def takeWhile_digits dropWhile_digits not_digit_percent_point)
  next
    assume a: "g = ds @ ''.'' @ fs \<and> s = ds @ ''.'' @ fs @ ''%'' @ rest"
    have t: "takeWhile is_digit (fs @ CHR ''%'' # rest) = fs"
      and d: "dropWhile is_digit (fs @ CHR ''%'' # rest) = CHR ''%'' # rest"
      using fs by (simp_all add: takeWhile_digits dropWhile_digits not_digit_percent_point)
    from a show ?thesis
      using ds t d
      by (simp add: match_pct_def takeWhile_digits dropWhile_digits not_digit_percent_point)
  qed
qed

lemma match_pct_sound:
  assumes "match_pct s = Some g"
  shows "token_at s g"
proof -
  let ?ds = "takeWhile is_digit s" and ?r = "dropWhile is_digit s"
  have s: "s = ?ds @ ?r" by simp
  from assms have ne: "?ds \<noteq> []" by (auto simp: match_pct_def Let_def split: if_splits)
  from assms ne obtain c r' where r: "?r = c # r'"
    by (cases ?r) (auto simp: match_pct_def Let_def)
  show ?thesis
  proof (cases "c = CHR ''%''")
    case True
    with assms ne r have "g = ?ds" by (simp add: match_pct_def Let_def)
    moreover have "s = ?ds @ ''%'' @ r'" using s r True by simp
    ultimately show ?thesis
      unfolding token_at_def using ne takeWhile_all_digits [of s] by blast
  next
    case False
    with assms ne r have point: "c = CHR ''.''"
      by (auto simp: match_pct_def Let_def split: if_splits)
    let ?fs = "takeWhile is_digit r'" and ?q = "dropWhile is_digit r'"
    from assms ne r point obtain q' where q: "?q = CHR ''%'' # q'" and g: "g = ?ds @ CHR ''.'' # ?fs"
      by (cases ?q) (auto simp: match_pct_def Let_def split: if_splits)
    have "r' = ?fs @ ?q" by simp
    with q have "r' = ?fs @ ''%'' @ q'" by simp
    with s r point have "s = ?ds @ ''.'' @ ?fs @ ''%'' @ q'" by simp
    with g show ?thesis
      unfolding token_at_def
      using ne takeWhile_all_digits [of s] takeWhile_all_digits [of r'] by auto
  qed
qed

lemma match_pct_iff: "match_pct s = Some g \<longleftrightarrow> token_at s g"
  using match_pct_sound match_pct_complete by blast

lemma search_pct_None_iff:
  "search_pct text = None \<longleftrightarrow> (\<forall>pre s g. text = pre @ s \<longrightarrow> \<not> token_at s g)"
proof (induction "text")
  case Nil
  have "\<not> token_at [] g" for g by (simp add: token_at_def)
  then show ?case by simp
next
  case (Cons c cs)
  have split: "(\<forall>pre s g. c # cs = pre @ s \<longrightarrow> \<not> token_at s g) \<longleftrightarrow>
      (\<forall>g. \<not> token_at (c # cs) g) \<and> (\<forall>pre s g. cs = pre @ s \<longrightarrow> \<not> token_at s g)"
    by (auto simp: Cons_eq_append_conv)
  show ?case
    unfolding split Cons.IH [symmetric]
    by (cases "match_pct (c # cs)") (auto simp: match_pct_iff [symmetric])
qed

lemma search_pct_Some_leftmost:
  assumes "search_pct text = Some g"
  shows "\<exists>pre s. text = pre @ s \<and> token_at s g
      \<and> (\<forall>pre' s' g'. text = pre' @ s' \<and> length pre' < length pre \<longrightarrow> \<not> token_at s' g')"
  using assms
proof (induction "text")
  case Nil
  then show ?case by simp
next
  case (Cons c cs)
  show ?case
  proof (cases "match_pct (c # cs)")
    case (Some h)
    with Cons.prems have "h = g" by simp
    with Some have "token_at (c # cs) g" by (simp add: match_pct_iff)
    then show ?thesis by (intro exI [of _ "[]"] exI [of _ "c # cs"]) simp
  next
    case None
    with Cons.prems have "search_pct cs = Some g" by simp
    from Cons.IH [OF this] obtain pre s where ps: "cs = pre @ s" "token_at s g"
      and left: "\<forall>pre' s' g'. cs = pre' @ s' \<and> length pre' < length pre \<longrightarrow> \<not> token_at s' g'"
      by blast
    have "\<not> token_at s' g'" if "c # cs = pre' @ s'" "length pre' < length (c # pre)" for pre' s' g'
    proof (cases pre')
      case Nil
      with that(1) None show ?thesis by (auto simp: match_pct_iff [symmetric])
    next
      case (Cons a pre'')
      with that have "cs = pre'' @ s'" "length pre'' < length pre" by simp_all
      with left show ?thesis by blast
    qed
    with ps show ?thesis
      by (intro exI [of _ "c # pre"] exI [of _ s]) auto
  qed
qed

section \<open>The progress capture rescales\<close>

lemma py_float_nonneg: "0 \<le> py_float tok"
  by (simp add: py_float_def Let_def)



lemma rescale_lower: "s \<le> e \<Longrightarrow> 0 \<le> p \<Longrightarrow> s \<le> s + (p / 100) * (e - s)" for s e p :: real
  by simp

lemma rescale_upper: "s \<le> e \<Longrightarrow> p \<le> 100 \<Longrightarrow> s + (p / 100) * (e - s) \<le> e" for s e p :: real
proof -
  assume se: "s \<le> e" and p: "p \<le> 100"
  have "(p / 100) * (e - s) \<le> 1 * (e - s)"
    by (rule mult_right_mono) (use se p in simp_all)
  then show ?thesis by simp
qed










section \<open>The phase ranges\<close>

text \<open>
  Claim C5. The five phase ranges are \<open>[0,10]\<close>, \<open>[10,15]\<close>, \<open>[15,70]\<close>, \<open>[70,90]\<close> and
  \<open>[90,100]\<close>: each ends where the next begins, each has its start below its end, no two
  overlap in more than an end point, and their union is \<open>[0,100]\<close>.
\<close>

theorem phases_cover:
  "pipeline_phases = [(0, 10), (10, 15), (15, 70), (70, 90), (90, 100)]
   \<and> contiguous pipeline_phases \<and> increasing pipeline_phases \<and> non_overlapping pipeline_phases
   \<and> (\<Union>r \<in> set pipeline_phases. {fst r .. snd r}) = {0 .. 100}"
proof -
  have eq: "pipeline_phases = [(0, 10), (10, 15), (15, 70), (70, 90), (90, 100)]"
    by (simp add: pipeline_phases_def progress_def align_progress_def)
  have u: "(\<Union>r \<in> set [(0, 10), (10, 15), (15, 70), (70, 90), (90, 100 :: real)]. {fst r .. snd r}) = {0 .. 100 :: real}"
    by auto
  show ?thesis
    unfolding eq using u by (simp add: increasing_def)
qed

section \<open>The compression threshold\<close>

lemma str_nat_digit: "n < 10 \<Longrightarrow> str_nat n = [digit_char n]"
  by (subst str_nat.simps) simp

lemma compress_below:
  "os_getsize x audio_path = Inr n \<Longrightarrow> n < 500 * 1024 * 1024 \<Longrightarrow>
   compress_audio_if_needed x audio_path temp_dir w = (Inr audio_path, w)"
  by (simp add: compress_audio_if_needed_def seq_def)

lemma ffmpeg_runs_stdout_write [simp]: "ffmpeg_runs (stdout_write c w) = ffmpeg_runs w"
  by (simp add: stdout_write_def split: stream.splits)

lemma ffmpeg_runs_print [simp]: "ffmpeg_runs (print s w) = ffmpeg_runs w"
  by (simp add: print_def)

lemma compress_from:
  "os_getsize x audio_path = Inr n \<Longrightarrow> 500 * 1024 * 1024 \<le> n \<Longrightarrow>
   ffmpeg_runs (snd (compress_audio_if_needed x audio_path temp_dir w)) =
     ffmpeg_runs w @ [ [audio_path, path_join temp_dir ''compressed_audio.wav''] ]"
  by (simp add: compress_audio_if_needed_def seq_def Let_def split: sum.splits)

text \<open>
  Claim C8, at the threshold. For a file of exactly 500 MB (524288000 bytes) the test
  \<^verbatim>\<open>file_size_mb < 500\<close> fails, so \<^verbatim>\<open>ffmpeg\<close> is started and the path of the compressed
  file is returned, not the original path.
\<close>

theorem compress_at_500MB:
  "fst (compress_audio_if_needed (example_env\<lparr>os_getsize := \<lambda>_. Inr 524288000\<rparr>)
     ''/Users/u/talk.wav'' ''/tmp/cml_transcriptie_a1'' initial_world)
     = Inr ''/tmp/cml_transcriptie_a1/compressed_audio.wav''
   \<and> ffmpeg_runs (snd (compress_audio_if_needed (example_env\<lparr>os_getsize := \<lambda>_. Inr 524288000\<rparr>)
     ''/Users/u/talk.wav'' ''/tmp/cml_transcriptie_a1'' initial_world))
     = [ [''/Users/u/talk.wav'', ''/tmp/cml_transcriptie_a1/compressed_audio.wav''] ]"
  by (simp add: compress_audio_if_needed_def seq_def Let_def example_env_def initial_world_def path_join_def)

section \<open>The output name is free\<close>

lemma collision_loop_taken:
  "p \<in> set existing \<Longrightarrow>
   collision_loop existing d s p c = collision_loop existing d s (candidate d s c) (Suc c)"
  by (subst collision_loop.simps) simp

lemma collision_loop_free: "p \<notin> set existing \<Longrightarrow> collision_loop existing d s p c = p"
  by (subst collision_loop.simps) simp

lemma collision_loop_result:
  "collision_loop existing d s p c \<notin> set existing
   \<and> (p \<notin> set existing \<longrightarrow> collision_loop existing d s p c = p)
   \<and> (p \<in> set existing \<longrightarrow>
        (\<exists>k. c \<le> k \<and> collision_loop existing d s p c = candidate d s k
           \<and> (\<forall>j. c \<le> j \<and> j < k \<longrightarrow> candidate d s j \<in> set existing)))"
proof (induction existing d s p c rule: collision_loop.induct)
  case (1 existing d s p c)
  show ?case
  proof (cases "p \<in> set existing")
    case False
    then show ?thesis by (simp add: collision_loop.simps [of existing d s p c])
  next
    case True
    let ?r = "collision_loop existing d s (candidate d s c) (c + 1)"
    have unfold: "collision_loop existing d s p c = ?r"
      using True by (simp add: collision_loop.simps [of existing d s p c])
    note IH = "1.IH" [OF True]
    from IH have free: "?r \<notin> set existing" by simp
    have "\<exists>k. c \<le> k \<and> ?r = candidate d s k
           \<and> (\<forall>j. c \<le> j \<and> j < k \<longrightarrow> candidate d s j \<in> set existing)"
    proof (cases "candidate d s c \<in> set existing")
      case False
      with IH have "?r = candidate d s c" by simp
      then show ?thesis by (intro exI [of _ c]) auto
    next
      case True
      with IH obtain k where k: "c + 1 \<le> k" "?r = candidate d s k"
        "\<forall>j. c + 1 \<le> j \<and> j < k \<longrightarrow> candidate d s j \<in> set existing"
        by blast
      have "\<forall>j. c \<le> j \<and> j < k \<longrightarrow> candidate d s j \<in> set existing"
      proof (intro allI impI)
        fix j assume j: "c \<le> j \<and> j < k"
        show "candidate d s j \<in> set existing"
        proof (cases "j = c")
          case True with \<open>candidate d s c \<in> set existing\<close> show ?thesis by simp
        next
          case False
          with j have "c + 1 \<le> j \<and> j < k" by simp
          with k(3) show ?thesis by blast
        qed
      qed
      with k show ?thesis by (intro exI [of _ k]) simp
    qed
    with True free show ?thesis unfolding unfold by simp
  qed
qed

text \<open>
  Claim C9. The path chosen for the export does not exist. It is the canonical path
  \<^verbatim>\<open><stem>.docx\<close> when that is free; otherwise it is \<^verbatim>\<open><stem>_k.docx\<close> for the first \<open>k \<ge> 1\<close>
  whose path is free, every smaller suffix being taken. With \<^verbatim>\<open>talk.docx\<close> and
  \<^verbatim>\<open>talk_1.docx\<close> existing, the stem \<^verbatim>\<open>talk\<close> gives \<^verbatim>\<open>talk_2.docx\<close>.
\<close>

theorem output_name_is_free:
  "resolve_output_path existing d s \<notin> set existing
   \<and> (path_join d (s @ ''.docx'') \<notin> set existing \<longrightarrow>
        resolve_output_path existing d s = path_join d (s @ ''.docx''))
   \<and> (path_join d (s @ ''.docx'') \<in> set existing \<longrightarrow>
        (\<exists>k. 1 \<le> k \<and> resolve_output_path existing d s = candidate d s k
           \<and> (\<forall>j. 1 \<le> j \<and> j < k \<longrightarrow> candidate d s j \<in> set existing)))
   \<and> resolve_output_path [path_join d ''talk.docx'', path_join d ''talk_1.docx''] d ''talk''
        = path_join d ''talk_2.docx''"
proof -
  have general: "resolve_output_path existing d s \<notin> set existing
   \<and> (path_join d (s @ ''.docx'') \<notin> set existing \<longrightarrow>
        resolve_output_path existing d s = path_join d (s @ ''.docx''))
   \<and> (path_join d (s @ ''.docx'') \<in> set existing \<longrightarrow>
        (\<exists>k. 1 \<le> k \<and> resolve_output_path existing d s = candidate d s k
           \<and> (\<forall>j. 1 \<le> j \<and> j < k \<longrightarrow> candidate d s j \<in> set existing)))"
    using collision_loop_result [of existing d s "path_join d (s @ ''.docx'')" 1]
    by (simp add: resolve_output_path_def)
  have one: "str_nat 1 = ''1''" and two: "str_nat 2 = ''2''"
    by (simp_all add: str_nat_digit digit_char_def)
  have talk: "resolve_output_path [path_join d ''talk.docx'', path_join d ''talk_1.docx''] d ''talk''
        = path_join d ''talk_2.docx''"
  proof -
    let ?E = "[path_join d ''talk.docx'', path_join d ''talk_1.docx'']"
    have c1: "candidate d ''talk'' (Suc 0) = path_join d ''talk_1.docx''"
      using one by (simp add: candidate_def)
    have c2: "candidate d ''talk'' (Suc (Suc 0)) = path_join d ''talk_2.docx''"
      using two by (simp add: candidate_def numeral_2_eq_2)
    have "collision_loop ?E d ''talk'' (path_join d ''talk.docx'') (Suc 0)
        = collision_loop ?E d ''talk'' (path_join d ''talk_1.docx'') (Suc (Suc 0))"
      by (rule trans [OF collision_loop_taken]) (simp_all add: c1)
    also have "\<dots> = collision_loop ?E d ''talk'' (path_join d ''talk_2.docx'') (Suc (Suc (Suc 0)))"
      by (rule trans [OF collision_loop_taken]) (simp_all add: c2)
    also have "\<dots> = path_join d ''talk_2.docx''"
      by (rule collision_loop_free) (simp add: path_join_def)
    finally show ?thesis
      by (simp add: resolve_output_path_def)
  qed
  from general talk show ?thesis by blast
qed

text \<open>Two directories: the one of the claim, and one where the canonical path is free.\<close>

theorem output_name_is_free_witness:
  "resolve_output_path [''/Users/u/Downloads/talk.docx'', ''/Users/u/Downloads/talk_1.docx'']
     ''/Users/u/Downloads'' ''talk'' = ''/Users/u/Downloads/talk_2.docx''
   \<and> ''/Users/u/Downloads/talk_2.docx''
        \<notin> set [''/Users/u/Downloads/talk.docx'', ''/Users/u/Downloads/talk_1.docx'']
   \<and> resolve_output_path [''/Users/u/Downloads/other.docx''] ''/Users/u/Downloads'' ''talk''
        = ''/Users/u/Downloads/talk.docx''"
proof -
  have a: "resolve_output_path [''/Users/u/Downloads/talk.docx'', ''/Users/u/Downloads/talk_1.docx'']
     ''/Users/u/Downloads'' ''talk'' = ''/Users/u/Downloads/talk_2.docx''"
    using output_name_is_free [of "[]" "''/Users/u/Downloads''" "''x''"]
    by (simp add: path_join_def)
  have b: "resolve_output_path [''/Users/u/Downloads/other.docx''] ''/Users/u/Downloads'' ''talk''
        = ''/Users/u/Downloads/talk.docx''"
    using output_name_is_free [of "[''/Users/u/Downloads/other.docx'']" "''/Users/u/Downloads''" "''talk''"]
    by (simp add: path_join_def)
  from a b show ?thesis by simp
qed

section \<open>What each operation leaves alone\<close>

lemma stdout_write_frame [simp]:
  "sys_stdout (stdout_write c w) = sys_stdout w"
  "saved (stdout_write c w) = saved w"
  "tempdirs (stdout_write c w) = tempdirs w"
  "rmtree_calls (stdout_write c w) = rmtree_calls w"
  by (simp_all add: stdout_write_def split: stream.splits)

lemma print_frame [simp]:
  "sys_stdout (print s w) = sys_stdout w"
  "saved (print s w) = saved w"
  "ffmpeg_runs (print s w) = ffmpeg_runs w"
  "tempdirs (print s w) = tempdirs w"
  "rmtree_calls (print s w) = rmtree_calls w"
  by (simp_all add: print_def)

lemma print_progress_bar_frame [simp]:
  "sys_stdout (print_progress_bar l p w) = sys_stdout w"
  "saved (print_progress_bar l p w) = saved w"
  "ffmpeg_runs (print_progress_bar l p w) = ffmpeg_runs w"
  "tempdirs (print_progress_bar l p w) = tempdirs w"
  "rmtree_calls (print_progress_bar l p w) = rmtree_calls w"
  by (simp_all add: print_progress_bar_def)

lemma finish_progress_bar_frame [simp]:
  "sys_stdout (finish_progress_bar w) = sys_stdout w"
  "saved (finish_progress_bar w) = saved w"
  "ffmpeg_runs (finish_progress_bar w) = ffmpeg_runs w"
  "tempdirs (finish_progress_bar w) = tempdirs w"
  "rmtree_calls (finish_progress_bar w) = rmtree_calls w"
  by (simp_all add: finish_progress_bar_def)

lemma print_newline_frame [simp]:
  "sys_stdout (print_newline w) = sys_stdout w"
  "saved (print_newline w) = saved w"
  "ffmpeg_runs (print_newline w) = ffmpeg_runs w"
  "tempdirs (print_newline w) = tempdirs w"
  "rmtree_calls (print_newline w) = rmtree_calls w"
  by (simp_all add: print_newline_def)

lemma to_terminal_frame [simp]:
  "sys_stdout (to_terminal cs w) = sys_stdout w"
  "saved (to_terminal cs w) = saved w"
  "ffmpeg_runs (to_terminal cs w) = ffmpeg_runs w"
  "tempdirs (to_terminal cs w) = tempdirs w"
  "rmtree_calls (to_terminal cs w) = rmtree_calls w"
  by (simp_all add: to_terminal_def)

lemma writes_frame [simp]:
  "sys_stdout (writes ts w) = sys_stdout w"
  "saved (writes ts w) = saved w"
  "ffmpeg_runs (writes ts w) = ffmpeg_runs w"
  "tempdirs (writes ts w) = tempdirs w"
  "rmtree_calls (writes ts w) = rmtree_calls w"
  by (induction ts arbitrary: w) simp_all

lemma conversion_line_frame [simp]:
  "sys_stdout (conversion_line d l w) = sys_stdout w"
  "saved (conversion_line d l w) = saved w"
  "ffmpeg_runs (conversion_line d l w) = ffmpeg_runs w"
  "tempdirs (conversion_line d l w) = tempdirs w"
  "rmtree_calls (conversion_line d l w) = rmtree_calls w"
  by (simp_all add: conversion_line_def Let_def split: option.splits prod.splits)

lemma conversion_lines_frame [simp]:
  "sys_stdout (conversion_lines d ls w) = sys_stdout w"
  "saved (conversion_lines d ls w) = saved w"
  "ffmpeg_runs (conversion_lines d ls w) = ffmpeg_runs w"
  "tempdirs (conversion_lines d ls w) = tempdirs w"
  "rmtree_calls (conversion_lines d ls w) = rmtree_calls w"
  by (induction ls arbitrary: w) simp_all

section \<open>The alignment phase is best effort\<close>

text \<open>The inference phase puts the stream back on every path.\<close>

lemma inference_phase_restores: "sys_stdout (snd (inference_phase x w)) = sys_stdout w"
  by (simp add: inference_phase_def Let_def split: sum.splits)

lemma alignment_phase_restores:
  "sys_stdout (snd (alignment_phase x segments w)) =
     (case fst (alignment_phase x segments w) of
        Inl e \<Rightarrow> Capture align_progress
      | Inr _ \<Rightarrow> sys_stdout w)"
  by (simp add: alignment_phase_def seq_def Let_def split: sum.splits prod.splits)

lemma alignment_phase_Exception:
  assumes "whisperx_load_align_model x = Inl (Exception msg)
      \<or> (whisperx_load_align_model x = Inr () \<and> whisperx_align x = Inl (Exception msg))"
  shows "fst (alignment_phase x segments w) = Inr segments"
  using assms by (auto simp: alignment_phase_def seq_def Let_def split: sum.splits prod.splits)


lemma terminal_stdout_write_Terminal:
  "sys_stdout w = Terminal \<Longrightarrow> terminal (stdout_write c w) = terminal w @ [c]"
  by (simp add: stdout_write_def)

lemma terminal_print_Terminal:
  "sys_stdout w = Terminal \<Longrightarrow> terminal (print s w) = terminal w @ [Text s, Text ''\<newline>'']"
  by (simp add: print_def terminal_stdout_write_Terminal)

lemma terminal_to_terminal [simp]: "terminal (to_terminal cs w) = terminal w @ cs"
  by (simp add: to_terminal_def)

lemma inference_phase_result: "fst (inference_phase x w) = model_transcribe x"
  by (simp add: inference_phase_def Let_def split: sum.splits)

lemma alignment_phase_warns:
  assumes "whisperx_load_align_model x = Inl (Exception msg)
      \<or> (whisperx_load_align_model x = Inr () \<and> whisperx_align x = Inl (Exception msg))"
    and "sys_stdout w = Terminal"
  shows "Text (''\<newline>  Waarschuwing: Uitlijning mislukt ('' @ msg
           @ ''), ruwe segmenten worden gebruikt.'')
         \<in> set (terminal (snd (alignment_phase x segments w)))"
  using assms
  by (auto simp: alignment_phase_def seq_def Let_def terminal_print_Terminal
      split: sum.splits prod.splits)

lemma run_transcription_reaches_alignment:
  assumes "whisperx_load_model x = Inr ()" and "whisperx_load_audio x = Inr ()"
    and "model_transcribe x = Inr (segments, reported)"
  shows "\<exists>w3. sys_stdout w3 = sys_stdout w
     \<and> run_transcription x audio_path model_size language w =
         (case alignment_phase x segments w3 of
            (Inl e, w4) \<Rightarrow> (Inl e, w4)
          | (Inr aligned, w4) \<Rightarrow>
              (Inr (aligned, case reported of Some l \<Rightarrow> l | None \<Rightarrow> language), w4))"
proof -
  let ?w2 = "finish_progress_bar (print_progress_bar ''Audio laden'' 15.00
      (print_progress_bar ''Audio laden'' 10.00 (finish_progress_bar
        (print_progress_bar ''Model laden'' 10.00 (print_progress_bar ''Model laden'' 0.00 w)))))"
  obtain wi where wi: "inference_phase x ?w2 = (Inr (segments, reported), wi)"
    using inference_phase_result [of x ?w2] assms(3) by (cases "inference_phase x ?w2") simp
  have si: "sys_stdout wi = sys_stdout w"
    using inference_phase_restores [of x ?w2] wi by simp
  let ?w3 = "print (''  Taal: '' @ (case reported of Some l \<Rightarrow> l | None \<Rightarrow> language)
      @ '', Segmenten: '' @ str_nat (length segments)) wi"
  have "run_transcription x audio_path model_size language w =
         (case alignment_phase x segments ?w3 of
            (Inl e, w4) \<Rightarrow> (Inl e, w4)
          | (Inr aligned, w4) \<Rightarrow>
              (Inr (aligned, case reported of Some l \<Rightarrow> l | None \<Rightarrow> language), w4))"
    using assms(1,2) wi
    by (simp add: run_transcription_def seq_def Let_def split: sum.splits prod.splits)
  moreover have "sys_stdout ?w3 = sys_stdout w" using si by simp
  ultimately show ?thesis by blast
qed


lemma convert_video_to_audio_frame [simp]:
  "sys_stdout (snd (convert_video_to_audio x v t w)) = sys_stdout w"
  "saved (snd (convert_video_to_audio x v t w)) = saved w"
  "tempdirs (snd (convert_video_to_audio x v t w)) = tempdirs w"
  "rmtree_calls (snd (convert_video_to_audio x v t w)) = rmtree_calls w"
  by (simp_all add: convert_video_to_audio_def seq_def Let_def split: sum.splits)

lemma compress_audio_if_needed_frame [simp]:
  "sys_stdout (snd (compress_audio_if_needed x p t w)) = sys_stdout w"
  "saved (snd (compress_audio_if_needed x p t w)) = saved w"
  "tempdirs (snd (compress_audio_if_needed x p t w)) = tempdirs w"
  "rmtree_calls (snd (compress_audio_if_needed x p t w)) = rmtree_calls w"
  by (simp_all add: compress_audio_if_needed_def seq_def Let_def split: sum.splits)

lemma snd_seq:
  "snd (seq m f) = (case fst m of Inl e \<Rightarrow> snd m | Inr a \<Rightarrow> snd (f a (snd m)))"
  by (cases m) (simp add: seq_def split: sum.splits)

lemma fst_seq:
  "fst (seq m f) = (case fst m of Inl e \<Rightarrow> Inl e | Inr a \<Rightarrow> fst (f a (snd m)))"
  by (cases m) (simp add: seq_def split: sum.splits)

lemma prepare_audio_frame [simp]:
  "sys_stdout (snd (prepare_audio x src ds t w)) = sys_stdout w"
  "saved (snd (prepare_audio x src ds t w)) = saved w"
  "tempdirs (snd (prepare_audio x src ds t w)) = tempdirs w"
  "rmtree_calls (snd (prepare_audio x src ds t w)) = rmtree_calls w"
  by (simp_all add: prepare_audio_def snd_seq Let_def split: sum.splits)

lemma export_step_saves:
  assumes "doc_save x = Inr ()"
  shows "\<exists>doc. saved (snd (export_step x src model_size language_name ds segments w)) =
           saved w @ [(resolve_output_path (existing_paths x) (path_join (home x) ''Downloads'')
                         (file_stem src), doc)]
         \<and> doc_body doc =
             map (\<lambda>seg. (''['' @ format_timestamp (seg_start seg) @ ''] '', strip (seg_text seg)))
               (filter (\<lambda>seg. strip (seg_text seg) \<noteq> []) segments)"
  using assms
  by (simp add: export_step_def export_to_word_def seq_def Let_def split: sum.splits)


text \<open>
  Claim C2. A run that has reached step 4 with the terminal as \<^verbatim>\<open>sys.stdout\<close>, in which the
  model and the audio load and inference returns \<open>segments\<close>, and in which the alignment
  phase raises an \<^verbatim>\<open>Exception\<close> (from \<^verbatim>\<open>load_align_model\<close> or from \<^verbatim>\<open>align\<close>):
  \<^verbatim>\<open>run_transcription\<close> returns exactly \<open>segments\<close>, with the terminal restored and the
  warning on it, and the body goes on to the export step with these segments, which saves
  a document made from them when the document library does not fail.
\<close>

theorem alignment_failure_falls_back:
  assumes start: "sys_stdout w = Terminal"
    and prepared: "prepare_audio x src duration_str temp_dir
        (print_newline (print ''Verwerking gestart...'' w)) = (Inr (audio_path, ds), w1)"
    and loaded: "whisperx_load_model x = Inr ()" "whisperx_load_audio x = Inr ()"
    and transcribed: "model_transcribe x = Inr (segments, reported)"
    and fails: "whisperx_load_align_model x = Inl (Exception msg)
      \<or> (whisperx_load_align_model x = Inr () \<and> whisperx_align x = Inl (Exception msg))"
  shows "\<exists>w2. run_transcription x audio_path model_size language_code w1 =
           (Inr (segments, case reported of Some l \<Rightarrow> l | None \<Rightarrow> language_code), w2)
     \<and> sys_stdout w2 = Terminal
     \<and> Text (''\<newline>  Waarschuwing: Uitlijning mislukt ('' @ msg
           @ ''), ruwe segmenten worden gebruikt.'') \<in> set (terminal w2)
     \<and> processing x src model_size language_code language_name duration_str temp_dir w =
         export_step x src model_size language_name ds segments w2
     \<and> (doc_save x = Inr () \<longrightarrow>
          (\<exists>doc. saved (snd (export_step x src model_size language_name ds segments w2)) =
             saved w2 @ [(resolve_output_path (existing_paths x)
                            (path_join (home x) ''Downloads'') (file_stem src), doc)]
           \<and> doc_body doc =
               map (\<lambda>seg. (''['' @ format_timestamp (seg_start seg) @ ''] '', strip (seg_text seg)))
                 (filter (\<lambda>seg. strip (seg_text seg) \<noteq> []) segments)))"
proof -
  have s1: "sys_stdout w1 = Terminal"
    using prepare_audio_frame(1) [of x src duration_str temp_dir
        "print_newline (print ''Verwerking gestart...'' w)"] prepared start
    by simp
  from run_transcription_reaches_alignment [OF loaded transcribed, of w1 audio_path model_size language_code]
  obtain w3 where w3: "sys_stdout w3 = sys_stdout w1"
    and run: "run_transcription x audio_path model_size language_code w1 =
         (case alignment_phase x segments w3 of
            (Inl e, w4) \<Rightarrow> (Inl e, w4)
          | (Inr aligned, w4) \<Rightarrow>
              (Inr (aligned, case reported of Some l \<Rightarrow> l | None \<Rightarrow> language_code), w4))"
    by blast
  obtain w2 where al: "alignment_phase x segments w3 = (Inr segments, w2)"
    using alignment_phase_Exception [OF fails, of segments w3]
    by (cases "alignment_phase x segments w3") simp
  have r: "run_transcription x audio_path model_size language_code w1 =
           (Inr (segments, case reported of Some l \<Rightarrow> l | None \<Rightarrow> language_code), w2)"
    using run al by simp
  have t: "sys_stdout w2 = Terminal"
    using alignment_phase_restores [of x segments w3] al w3 s1 by simp
  have warn: "Text (''\<newline>  Waarschuwing: Uitlijning mislukt ('' @ msg
           @ ''), ruwe segmenten worden gebruikt.'') \<in> set (terminal w2)"
    using alignment_phase_warns [OF fails, of w3 segments] al w3 s1 by simp
  have p: "processing x src model_size language_code language_name duration_str temp_dir w =
         export_step x src model_size language_name ds segments w2"
    using prepared r by (simp add: processing_def seq_def Let_def)
  from r t warn p export_step_saves [of x src model_size language_name ds segments w2]
  show ?thesis by blast
qed


lemma inference_phase_frame [simp]:
  "saved (snd (inference_phase x w)) = saved w"
  "tempdirs (snd (inference_phase x w)) = tempdirs w"
  "rmtree_calls (snd (inference_phase x w)) = rmtree_calls w"
  by (simp_all add: inference_phase_def Let_def split: sum.splits)

lemma alignment_phase_frame [simp]:
  "saved (snd (alignment_phase x segs w)) = saved w"
  "tempdirs (snd (alignment_phase x segs w)) = tempdirs w"
  "rmtree_calls (snd (alignment_phase x segs w)) = rmtree_calls w"
  by (simp_all add: alignment_phase_def seq_def Let_def split: sum.splits prod.splits)

lemma run_transcription_frame [simp]:
  "saved (snd (run_transcription x p m l w)) = saved w"
  "tempdirs (snd (run_transcription x p m l w)) = tempdirs w"
  "rmtree_calls (snd (run_transcription x p m l w)) = rmtree_calls w"
  by (simp_all add: run_transcription_def snd_seq Let_def split: sum.splits prod.splits)

lemma export_to_word_frame [simp]:
  "sys_stdout (snd (export_to_word x segs md p w)) = sys_stdout w"
  "tempdirs (snd (export_to_word x segs md p w)) = tempdirs w"
  "rmtree_calls (snd (export_to_word x segs md p w)) = rmtree_calls w"
  by (simp_all add: export_to_word_def snd_seq Let_def split: sum.splits)

lemma export_step_frame [simp]:
  "sys_stdout (snd (export_step x src m l ds segs w)) = sys_stdout w"
  "tempdirs (snd (export_step x src m l ds segs w)) = tempdirs w"
  "rmtree_calls (snd (export_step x src m l ds segs w)) = rmtree_calls w"
  by (simp_all add: export_step_def snd_seq Let_def split: sum.splits)

lemma processing_frame [simp]:
  "tempdirs (snd (processing x src m lc lname ds t w)) = tempdirs w"
  "rmtree_calls (snd (processing x src m lc lname ds t w)) = rmtree_calls w"
  by (simp_all add: processing_def snd_seq Let_def split: sum.splits prod.splits)

section \<open>Evaluating the formats\<close>

lemma str_nat_numeral:
  "str_nat (numeral k) =
     (if numeral k < (10::nat) then [digit_char (numeral k)]
      else str_nat (numeral k div 10) @ [digit_char (numeral k mod 10)])"
  by (subst str_nat.simps) simp

lemma format_timestamp_minus_5: "format_timestamp (- 5) = ''59:55''"
  by (simp add: format_timestamp_def py_int_def py_floordiv_def py_mod_def fmt_02d_def rjust_def
      str_nat_numeral digit_char_def)

lemma estimate_minus_5: "estimate_processing_time (- 5) ''medium'' = ''~-15 seconden''"
  by (simp add: estimate_processing_time_def RTF_MAP_def py_int_def str_int_def
      str_nat_numeral str_nat_digit digit_char_def)

lemma terminal_stdout_write:
  "terminal (stdout_write c w) =
     terminal w @ (case sys_stdout w of
                     Terminal \<Rightarrow> [c]
                   | Capture pc \<Rightarrow> ProgressCapture_write pc (out_text c))"
  by (simp add: stdout_write_def split: stream.splits)

lemma terminal_print_newline_Terminal:
  "sys_stdout w = Terminal \<Longrightarrow> terminal (print_newline w) = terminal w @ [Text ''\<newline>'']"
  by (simp add: print_newline_def terminal_stdout_write)

lemma main_info_frame [simp]:
  "sys_stdout (snd (main_info x src m w)) = sys_stdout w"
  "saved (snd (main_info x src m w)) = saved w"
  "tempdirs (snd (main_info x src m w)) = tempdirs w"
  "rmtree_calls (snd (main_info x src m w)) = rmtree_calls w"
  by (simp_all add: main_info_def snd_seq Let_def split: sum.splits prod.splits option.splits)

section \<open>The probed duration\<close>

text \<open>What \<^verbatim>\<open>main\<close> makes of a probed duration.\<close>

lemma main_info_unknown:
  assumes "os_getsize x (file_path src) = Inr n"
    and "ffprobe x (file_path src) = NonNumeric s \<or> ffprobe x (file_path src) = Numeric 0
      \<or> ffprobe x (file_path src) = ProbeRaises (Exception s)"
  shows "fst (main_info x src m w) = Inr ''Onbekend''"
  using assms
  by (auto simp: main_info_def fst_seq get_duration_ffprobe_def Let_def split: prod.splits)

lemma main_info_numeric:
  assumes "os_getsize x (file_path src) = Inr n"
    and "ffprobe x (file_path src) = Numeric d" and "d \<noteq> 0" and "sys_stdout w = Terminal"
  shows "fst (main_info x src m w) = Inr (format_timestamp d)"
    and "Text (''  Geschatte verwerkingstijd: '' @ estimate_processing_time d m)
          \<in> set (terminal (snd (main_info x src m w)))"
  using assms
  by (simp_all add: main_info_def fst_seq snd_seq get_duration_ffprobe_def Let_def
      terminal_print_Terminal terminal_print_newline_Terminal split: prod.splits)

text \<open>
  Claim C7, for a negative probe result. With a probed duration of \<open>-5\<close> seconds the test
  \<^verbatim>\<open>if duration:\<close> succeeds, so the duration string is \<^verbatim>\<open>59:55\<close> instead of the placeholder
  and an estimate of \<open>-15\<close> seconds is printed.
\<close>

theorem negative_duration_is_formatted:
  "fst (main_info (example_env\<lparr>ffprobe := \<lambda>_. Numeric (- 5)\<rparr>) talk_wav ''medium'' initial_world)
     = Inr ''59:55''
   \<and> Text ''  Geschatte verwerkingstijd: ~-15 seconden''
       \<in> set (terminal (snd (main_info (example_env\<lparr>ffprobe := \<lambda>_. Numeric (- 5)\<rparr>) talk_wav ''medium''
        initial_world)))"
proof -
  let ?x = "example_env\<lparr>ffprobe := \<lambda>_. Numeric (- 5)\<rparr>"
  have size: "os_getsize ?x (file_path talk_wav) = Inr 1000000" by (simp add: example_env_def)
  have probe: "ffprobe ?x (file_path talk_wav) = Numeric (- 5)" by simp
  have start: "sys_stdout initial_world = Terminal" by (simp add: initial_world_def)
  from main_info_numeric [OF size probe _ start, of "''medium''"]
  show ?thesis by (simp add: format_timestamp_minus_5 estimate_minus_5)
qed


section \<open>The temporary directory\<close>

lemma main_processing_cleanup:
  "rmtree_calls (snd (main_processing x src m lc lname ds w)) = rmtree_calls w @ [mkdtemp x]"
  "tempdirs (snd (main_processing x src m lc lname ds w)) =
     (case shutil_rmtree x of
        Inl e \<Rightarrow> mkdtemp x # tempdirs w
      | Inr u \<Rightarrow> removeAll (mkdtemp x) (tempdirs w))"
  by (simp_all add: main_processing_def Let_def case_prod_beta split: sum.splits exn.splits)

text \<open>
  Claim C4, as amended. Whatever the body does (it returns, it raises an exception that
  one of the two clauses catches, or it raises another one), \<^verbatim>\<open>shutil.rmtree\<close> is called on
  the temporary directory exactly once; the directory is gone afterwards when that call
  succeeds.
\<close>

theorem cleanup_called_once:
  "rmtree_calls (snd (main_processing x src model_size language_code language_name duration_str w))
     = rmtree_calls w @ [mkdtemp x]
   \<and> (shutil_rmtree x = Inr () \<longrightarrow>
        mkdtemp x \<notin> set (tempdirs (snd (main_processing x src model_size language_code
                                        language_name duration_str w))))"
  by (simp add: main_processing_cleanup)

text \<open>The example run.\<close>

theorem cleanup_called_once_witness:
  "rmtree_calls (snd (main_processing example_env talk_wav ''medium'' ''nl'' ''Nederlands'' ''01:00''
       initial_world)) = [''/tmp/cml_transcriptie_a1'']
   \<and> ''/tmp/cml_transcriptie_a1''
        \<notin> set (tempdirs (snd (main_processing example_env talk_wav ''medium'' ''nl'' ''Nederlands''
                              ''01:00'' initial_world)))"
  using cleanup_called_once [of example_env talk_wav "''medium''" "''nl''" "''Nederlands''" "''01:00''"
      initial_world]
  by (simp add: example_env_def initial_world_def)

text \<open>
  Claim C4 as stated fails when \<^verbatim>\<open>shutil.rmtree\<close> itself raises: the exception is swallowed
  and the directory is still there.
\<close>

theorem rmtree_failure_leaves_directory:
  "''/tmp/cml_transcriptie_a1''
     \<in> set (tempdirs (snd (main_processing
          (example_env\<lparr>shutil_rmtree := Inl (Exception ''Permission denied'')\<rparr>)
          talk_wav ''medium'' ''nl'' ''Nederlands'' ''01:00'' initial_world)))"
  by (simp add: main_processing_cleanup example_env_def)

section \<open>The example run with a failing alignment\<close>

lemma is_video_wav: "\<not> is_video ''.wav''"
  by (simp add: is_video_def lower_def ascii_lower_def SUPPORTED_VIDEO_def)

lemma is_video_mp4: "is_video ''.mp4''"
  by (simp add: is_video_def lower_def ascii_lower_def SUPPORTED_VIDEO_def)

lemma format_timestamp_60: "format_timestamp 60 = ''01:00''"
  by (simp add: format_timestamp_def py_int_def py_floordiv_def py_mod_def fmt_02d_def rjust_def
      str_nat_digit digit_char_def)

lemma prepare_audio_talk_wav:
  assumes "os_getsize x = (\<lambda>_. Inr 1000000)" and "ffprobe x = (\<lambda>_. Numeric 60)"
  shows "fst (prepare_audio x talk_wav ''01:00'' t w) = Inr (''/Users/u/talk.wav'', ''01:00'')"
  using assms
  by (simp add: prepare_audio_def fst_seq talk_wav_def is_video_wav
      compress_audio_if_needed_def get_duration_ffprobe_def format_timestamp_60)

text \<open>
  The example run with three segments, in which \<^verbatim>\<open>whisperx.align\<close> raises: the three
  segments come back and the document is saved under the canonical name.
\<close>

theorem alignment_failure_falls_back_witness:
  "fst (run_transcription (example_env\<lparr>whisperx_align := Inl (Exception ''no alignment model'')\<rparr>)
        ''/Users/u/talk.wav'' ''medium'' ''nl''
        (snd (prepare_audio (example_env\<lparr>whisperx_align := Inl (Exception ''no alignment model'')\<rparr>)
           talk_wav ''01:00'' ''/tmp/cml_transcriptie_a1''
           (print_newline (print ''Verwerking gestart...'' initial_world)))))
     = Inr (three_segments, ''nl'')
   \<and> map fst (saved (snd (processing (example_env\<lparr>whisperx_align := Inl (Exception ''no alignment model'')\<rparr>)
        talk_wav ''medium'' ''nl'' ''Nederlands'' ''01:00'' ''/tmp/cml_transcriptie_a1'' initial_world)))
     = [''/Users/u/Downloads/talk.docx'']"
proof -
  let ?x = "example_env\<lparr>whisperx_align := Inl (Exception ''no alignment model'')\<rparr>"
  let ?w0 = "print_newline (print ''Verwerking gestart...'' initial_world)"
  let ?w1 = "snd (prepare_audio ?x talk_wav ''01:00'' ''/tmp/cml_transcriptie_a1'' ?w0)"
  have start: "sys_stdout initial_world = Terminal" by (simp add: initial_world_def)
  have "fst (prepare_audio ?x talk_wav ''01:00'' ''/tmp/cml_transcriptie_a1'' ?w0)
      = Inr (''/Users/u/talk.wav'', ''01:00'')"
    by (rule prepare_audio_talk_wav) (simp_all add: example_env_def)
  then have prepared: "prepare_audio ?x talk_wav ''01:00'' ''/tmp/cml_transcriptie_a1'' ?w0
      = (Inr (''/Users/u/talk.wav'', ''01:00''), ?w1)"
    by (simp add: prod_eq_iff)
  have loaded: "whisperx_load_model ?x = Inr ()" "whisperx_load_audio ?x = Inr ()"
    by (simp_all add: example_env_def)
  have transcribed: "model_transcribe ?x = Inr (three_segments, Some ''nl'')"
    by (simp add: example_env_def)
  have fails: "whisperx_load_align_model ?x = Inl (Exception ''no alignment model'')
      \<or> (whisperx_load_align_model ?x = Inr ()
          \<and> whisperx_align ?x = Inl (Exception ''no alignment model''))"
    by (simp add: example_env_def)
  have saves: "doc_save ?x = Inr ()" by (simp add: example_env_def)
  from alignment_failure_falls_back [OF start prepared loaded transcribed fails,
      of "''medium''" "''nl''" "''Nederlands''"]
  obtain w2 doc where
    run: "run_transcription ?x ''/Users/u/talk.wav'' ''medium'' ''nl'' ?w1
        = (Inr (three_segments, ''nl''), w2)"
    and body: "processing ?x talk_wav ''medium'' ''nl'' ''Nederlands'' ''01:00''
        ''/tmp/cml_transcriptie_a1'' initial_world
        = export_step ?x talk_wav ''medium'' ''Nederlands'' ''01:00'' three_segments w2"
    and saved: "saved (snd (export_step ?x talk_wav ''medium'' ''Nederlands'' ''01:00''
          three_segments w2)) =
        saved w2 @ [(resolve_output_path (existing_paths ?x)
                       (path_join (home ?x) ''Downloads'') (file_stem talk_wav), doc)]"
    using saves by auto
  have "saved w2 = saved ?w1"
    using run_transcription_frame(1) [of ?x "''/Users/u/talk.wav''" "''medium''" "''nl''" ?w1] run
    by simp
  then have empty: "saved w2 = []" by (simp add: initial_world_def)
  have name: "resolve_output_path (existing_paths ?x) (path_join (home ?x) ''Downloads'')
      (file_stem talk_wav) = ''/Users/u/Downloads/talk.docx''"
    by (simp add: resolve_output_path_def collision_loop_free example_env_def talk_wav_def
        path_join_def)
  from run body saved empty name show ?thesis by simp
qed

section \<open>An interruption during alignment\<close>

lemma alignment_phase_interrupted:
  assumes "whisperx_load_align_model x = Inl KeyboardInterrupt
      \<or> (whisperx_load_align_model x = Inr () \<and> whisperx_align x = Inl KeyboardInterrupt)"
  shows "fst (alignment_phase x segments w) = Inl KeyboardInterrupt"
  using assms by (auto simp: alignment_phase_def seq_def Let_def split: sum.splits prod.splits)

lemma search_pct_interrupt_message:
  "search_pct ''\<newline>\<newline>  Afgebroken door gebruiker.'' = None"
  "search_pct ''\<newline>'' = None"
  by (simp_all add: match_pct_def is_digit_def)

lemma print_interrupt_message_captured:
  "sys_stdout w = Capture pc \<Longrightarrow>
   terminal (print ''\<newline>\<newline>  Afgebroken door gebruiker.'' w) = terminal w"
  by (simp add: print_def terminal_stdout_write ProgressCapture_write_def
      search_pct_interrupt_message del: search_pct.simps)

lemma main_processing_interrupted:
  assumes "fst (processing x src m lc lname ds (mkdtemp x) (w\<lparr>tempdirs := mkdtemp x # tempdirs w\<rparr>))
      = Inl KeyboardInterrupt"
    and "sys_stdout (snd (processing x src m lc lname ds (mkdtemp x)
      (w\<lparr>tempdirs := mkdtemp x # tempdirs w\<rparr>))) = Capture pc"
  shows "terminal (snd (main_processing x src m lc lname ds w)) =
      terminal (snd (processing x src m lc lname ds (mkdtemp x) (w\<lparr>tempdirs := mkdtemp x # tempdirs w\<rparr>)))"
    and "sys_stdout (snd (main_processing x src m lc lname ds w)) = Capture pc"
  using assms
  by (simp_all add: main_processing_def Let_def case_prod_beta print_interrupt_message_captured
      split: sum.splits)

text \<open>
  Claim C3, for an interruption during alignment. A run that has reached step 4 with the
  terminal as \<^verbatim>\<open>sys.stdout\<close>, in which \<^verbatim>\<open>load_align_model\<close> or \<^verbatim>\<open>align\<close> raises
  \<^verbatim>\<open>KeyboardInterrupt\<close>: neither clause of the \<^verbatim>\<open>try\<close> in phase 4 runs, so
  \<^verbatim>\<open>run_transcription\<close> is left with \<^verbatim>\<open>sys.stdout\<close> still the capture; it is still the capture
  when \<^verbatim>\<open>main\<close> has finished, and the message that \<^verbatim>\<open>main\<close> prints for the interruption adds
  nothing to the terminal.
\<close>

theorem interrupt_in_alignment_leaks_redirection:
  assumes start: "sys_stdout w = Terminal"
    and prepared: "prepare_audio x src duration_str (mkdtemp x)
        (print_newline (print ''Verwerking gestart...'' (w\<lparr>tempdirs := mkdtemp x # tempdirs w\<rparr>)))
        = (Inr (audio_path, ds), w1)"
    and loaded: "whisperx_load_model x = Inr ()" "whisperx_load_audio x = Inr ()"
    and transcribed: "model_transcribe x = Inr (segments, reported)"
    and interrupted: "whisperx_load_align_model x = Inl KeyboardInterrupt
      \<or> (whisperx_load_align_model x = Inr () \<and> whisperx_align x = Inl KeyboardInterrupt)"
  shows "fst (run_transcription x audio_path model_size language_code w1) = Inl KeyboardInterrupt
     \<and> sys_stdout (snd (run_transcription x audio_path model_size language_code w1))
         = Capture align_progress
     \<and> sys_stdout (snd (main_processing x src model_size language_code language_name duration_str w))
         = Capture align_progress
     \<and> terminal (snd (main_processing x src model_size language_code language_name duration_str w))
         = terminal (snd (run_transcription x audio_path model_size language_code w1))"
proof -
  let ?w0 = "w\<lparr>tempdirs := mkdtemp x # tempdirs w\<rparr>"
  from run_transcription_reaches_alignment [OF loaded transcribed, of w1 audio_path model_size language_code]
  obtain w3 where run: "run_transcription x audio_path model_size language_code w1 =
         (case alignment_phase x segments w3 of
            (Inl e, w4) \<Rightarrow> (Inl e, w4)
          | (Inr aligned, w4) \<Rightarrow>
              (Inr (aligned, case reported of Some l \<Rightarrow> l | None \<Rightarrow> language_code), w4))"
    by blast
  obtain w4 where al: "alignment_phase x segments w3 = (Inl KeyboardInterrupt, w4)"
    using alignment_phase_interrupted [OF interrupted, of segments w3]
    by (cases "alignment_phase x segments w3") simp
  have cap: "sys_stdout w4 = Capture align_progress"
    using alignment_phase_restores [of x segments w3] al by simp
  have r: "run_transcription x audio_path model_size language_code w1 = (Inl KeyboardInterrupt, w4)"
    using run al by simp
  have p: "processing x src model_size language_code language_name duration_str (mkdtemp x) ?w0
      = (Inl KeyboardInterrupt, w4)"
    using prepared r by (simp add: processing_def seq_def Let_def)
  have "terminal (snd (main_processing x src model_size language_code language_name duration_str w))
      = terminal w4"
    and "sys_stdout (snd (main_processing x src model_size language_code language_name duration_str w))
      = Capture align_progress"
    using main_processing_interrupted [of x src model_size language_code language_name duration_str w
        align_progress] p cap
    by simp_all
  with r cap show ?thesis by simp
qed

text \<open>The example run, interrupted in \<^verbatim>\<open>whisperx.align\<close>.\<close>

theorem interrupt_in_alignment_leaks_redirection_witness:
  "sys_stdout (snd (main_processing (example_env\<lparr>whisperx_align := Inl KeyboardInterrupt\<rparr>) talk_wav
      ''medium'' ''nl'' ''Nederlands'' ''01:00'' initial_world)) = Capture align_progress
   \<and> terminal (snd (main_processing (example_env\<lparr>whisperx_align := Inl KeyboardInterrupt\<rparr>) talk_wav
      ''medium'' ''nl'' ''Nederlands'' ''01:00'' initial_world))
     = terminal (snd (run_transcription (example_env\<lparr>whisperx_align := Inl KeyboardInterrupt\<rparr>)
         ''/Users/u/talk.wav'' ''medium'' ''nl''
         (snd (prepare_audio (example_env\<lparr>whisperx_align := Inl KeyboardInterrupt\<rparr>) talk_wav
            ''01:00'' ''/tmp/cml_transcriptie_a1''
            (print_newline (print ''Verwerking gestart...''
               (initial_world\<lparr>tempdirs := [''/tmp/cml_transcriptie_a1'']\<rparr>)))))))"
proof -
  let ?x = "example_env\<lparr>whisperx_align := Inl KeyboardInterrupt\<rparr>"
  let ?w0 = "print_newline (print ''Verwerking gestart...''
      (initial_world\<lparr>tempdirs := mkdtemp ?x # tempdirs initial_world\<rparr>))"
  let ?w1 = "snd (prepare_audio ?x talk_wav ''01:00'' (mkdtemp ?x) ?w0)"
  have start: "sys_stdout initial_world = Terminal" by (simp add: initial_world_def)
  have "fst (prepare_audio ?x talk_wav ''01:00'' (mkdtemp ?x) ?w0)
      = Inr (''/Users/u/talk.wav'', ''01:00'')"
    by (rule prepare_audio_talk_wav) (simp_all add: example_env_def)
  then have prepared: "prepare_audio ?x talk_wav ''01:00'' (mkdtemp ?x) ?w0
      = (Inr (''/Users/u/talk.wav'', ''01:00''), ?w1)"
    by (simp add: prod_eq_iff)
  have loaded: "whisperx_load_model ?x = Inr ()" "whisperx_load_audio ?x = Inr ()"
    by (simp_all add: example_env_def)
  have transcribed: "model_transcribe ?x = Inr (three_segments, Some ''nl'')"
    by (simp add: example_env_def)
  have interrupted: "whisperx_load_align_model ?x = Inl KeyboardInterrupt
      \<or> (whisperx_load_align_model ?x = Inr () \<and> whisperx_align ?x = Inl KeyboardInterrupt)"
    by (simp add: example_env_def)
  have t: "mkdtemp ?x = ''/tmp/cml_transcriptie_a1''" "tempdirs initial_world = []"
    by (simp_all add: example_env_def initial_world_def)
  from interrupt_in_alignment_leaks_redirection [OF start prepared loaded transcribed interrupted,
      of "''medium''" "''nl''" "''Nederlands''"]
  show ?thesis unfolding t by simp
qed

section \<open>The rendered percentages\<close>

lemma rendered_append [simp]: "rendered (a @ b) = rendered a @ rendered b"
  by (induction a rule: rendered.induct) simp_all

lemma advances_same: "rendered t' = rendered t \<Longrightarrow> advances lo hi t t'"
  by (simp add: advances_def)

lemma advances_bar: "rendered t' = rendered t @ [p] \<Longrightarrow> advances p p t t'"
  by (simp add: advances_def)

lemma advances_widen:
  "advances a b t t' \<Longrightarrow> a' \<le> a \<Longrightarrow> b \<le> b' \<Longrightarrow> advances a' b' t t'"
  unfolding advances_def list_all_iff by fastforce

lemma advances_trans:
  assumes "advances a b t t1" and "advances b c t1 t2" and "a \<le> b" and "b \<le> c"
  shows "advances a c t t2"
proof -
  from assms(1) obtain d1 where d1: "rendered t1 = rendered t @ d1" "sorted d1"
    "list_all (\<lambda>p. a \<le> p \<and> p \<le> b) d1"
    unfolding advances_def by blast
  from assms(2) obtain d2 where d2: "rendered t2 = rendered t1 @ d2" "sorted d2"
    "list_all (\<lambda>p. b \<le> p \<and> p \<le> c) d2"
    unfolding advances_def by blast
  have "sorted (d1 @ d2)"
    using d1 d2 by (fastforce simp: sorted_append list_all_iff)
  moreover have "list_all (\<lambda>p. a \<le> p \<and> p \<le> c) (d1 @ d2)"
    using d1 d2 assms(3,4) by (fastforce simp: list_all_iff)
  moreover have "rendered t2 = rendered t @ (d1 @ d2)" using d1 d2 by simp
  ultimately show ?thesis unfolding advances_def by blast
qed

lemma advances_sorted:
  "advances lo hi t t' \<Longrightarrow> rendered t = [] \<Longrightarrow> sorted (rendered t')"
  unfolding advances_def by auto

text \<open>Writing to the terminal.\<close>

lemma rendered_print_Terminal:
  "sys_stdout w = Terminal \<Longrightarrow> rendered (terminal (print s w)) = rendered (terminal w)"
  by (simp add: terminal_print_Terminal)

lemma rendered_print_newline_Terminal:
  "sys_stdout w = Terminal \<Longrightarrow> rendered (terminal (print_newline w)) = rendered (terminal w)"
  by (simp add: terminal_print_newline_Terminal)

lemma rendered_finish_progress_bar_Terminal:
  "sys_stdout w = Terminal \<Longrightarrow> rendered (terminal (finish_progress_bar w)) = rendered (terminal w)"
  by (simp add: finish_progress_bar_def terminal_stdout_write)

lemma rendered_print_progress_bar_Terminal:
  "sys_stdout w = Terminal \<Longrightarrow>
   rendered (terminal (print_progress_bar l p w)) = rendered (terminal w) @ [p]"
  by (simp add: print_progress_bar_def terminal_stdout_write)

lemma rendered_finish:
  "rendered (ProgressCapture_finish pc) = [phase_end pc]"
  by (simp add: ProgressCapture_finish_def ProgressCapture_render_bar_def)

lemma rendered_write:
  "rendered (ProgressCapture_write pc t) =
     (case search_pct t of Some g \<Rightarrow> [rescale pc (py_float g)] | None \<Rightarrow> [])"
  by (simp add: ProgressCapture_write_def ProgressCapture_render_bar_def rescale_def Let_def
      split: option.splits)

lemma rendered_writes_Capture:
  "sys_stdout w = Capture pc \<Longrightarrow>
   rendered (terminal (writes ts w)) = rendered (terminal w) @ map (rescale pc) (local_pcts ts)"
proof (induction ts arbitrary: w)
  case Nil
  then show ?case by simp
next
  case (Cons t ts)
  have "sys_stdout (stdout_write (Text t) w) = Capture pc" using Cons.prems by simp
  from Cons.IH [OF this] Cons.prems show ?case
    by (simp add: terminal_stdout_write rendered_write split: option.splits)
qed

lemma rescale_mono: "phase_start pc \<le> phase_end pc \<Longrightarrow> p \<le> q \<Longrightarrow> rescale pc p \<le> rescale pc q"
  unfolding rescale_def
  by (intro add_left_mono mult_right_mono) (simp_all add: divide_right_mono)

lemma local_pcts_nonneg: "list_all (\<lambda>p. 0 \<le> p) (local_pcts ts)"
  by (induction ts) (simp_all add: py_float_nonneg split: option.splits)

lemma local_pcts_append: "local_pcts (a @ b) = local_pcts a @ local_pcts b"
  by (induction a) (simp_all split: option.splits)

lemma steady_rescaled:
  assumes "steady ts" and "phase_start pc \<le> phase_end pc"
  shows "sorted (map (rescale pc) (local_pcts ts))"
    and "list_all (\<lambda>p. phase_start pc \<le> p \<and> p \<le> phase_end pc) (map (rescale pc) (local_pcts ts))"
proof -
  from assms(1) have s: "sorted (local_pcts ts)" and u: "list_all (\<lambda>p. p \<le> 100) (local_pcts ts)"
    by (simp_all add: steady_def)
  show "sorted (map (rescale pc) (local_pcts ts))"
    using s assms(2) by (simp add: sorted_map sorted_wrt_iff_nth_less rescale_mono)
  have "phase_start pc \<le> rescale pc p \<and> rescale pc p \<le> phase_end pc"
    if "0 \<le> p" "p \<le> 100" for p
    unfolding rescale_def using that assms(2) rescale_lower [of "phase_start pc" "phase_end pc" p]
      rescale_upper [of "phase_start pc" "phase_end pc" p] by simp
  then show "list_all (\<lambda>p. phase_start pc \<le> p \<and> p \<le> phase_end pc) (map (rescale pc) (local_pcts ts))"
    using u local_pcts_nonneg [of ts] by (simp add: list_all_iff)
qed

lemma advances_writes_Capture:
  assumes "sys_stdout w = Capture pc" and "steady ts" and "phase_start pc \<le> phase_end pc"
  shows "advances (phase_start pc) (phase_end pc) (terminal w) (terminal (writes ts w))"
  unfolding advances_def
  using rendered_writes_Capture [OF assms(1), of ts] steady_rescaled [OF assms(2,3)]
  by blast

lemma advances_then_bar:
  "advances a b t t1 \<Longrightarrow> rendered t2 = rendered t1 @ [b] \<Longrightarrow> a \<le> b \<Longrightarrow> advances a b t t2"
  by (rule advances_trans [OF _ advances_bar]) simp_all

lemma advances_then_same:
  "advances a b t t1 \<Longrightarrow> rendered t2 = rendered t1 \<Longrightarrow> advances a b t t2"
  by (simp add: advances_def)

lemma progress_bounds:
  "phase_start progress = 15" "phase_end progress = 70"
  "phase_start align_progress = 70" "phase_end align_progress = 90"
  by (simp_all add: progress_def align_progress_def)

lemma inference_phase_advances:
  assumes "steady (transcribe_prints x)"
  shows "advances 15 70 (terminal w) (terminal (snd (inference_phase x w)))"
proof -
  let ?w5 = "w\<lparr>sys_stdout := Capture progress\<rparr>"
  have a: "advances 15 70 (terminal w) (terminal (writes (transcribe_prints x) ?w5))"
    using advances_writes_Capture [of ?w5 progress "transcribe_prints x"] assms
    by (simp add: progress_bounds)
  show ?thesis
  proof (cases "model_transcribe x")
    case (Inl e)
    then show ?thesis using a by (simp add: inference_phase_def Let_def)
  next
    case (Inr r)
    have "advances 15 70 (terminal w)
        (terminal (writes (transcribe_prints x) ?w5) @ ProgressCapture_finish progress)"
      by (rule advances_then_bar [OF a]) (simp_all add: rendered_finish progress_bounds)
    then show ?thesis using Inr by (simp add: inference_phase_def Let_def)
  qed
qed

lemma steady_prefix: "steady (a @ b) \<Longrightarrow> steady a"
  by (simp add: steady_def local_pcts_append sorted_append)

lemma writes_append: "writes (a @ b) w = writes b (writes a w)"
  by (induction a arbitrary: w) simp_all

lemma alignment_phase_advances:
  assumes "steady (load_align_prints x @ align_prints x)" and "sys_stdout w = Terminal"
  shows "advances 70 90 (terminal w) (terminal (snd (alignment_phase x segments w)))"
proof -
  let ?w0 = "w\<lparr>sys_stdout := Capture align_progress\<rparr>"
  let ?w1 = "writes (load_align_prints x) ?w0"
  let ?w2 = "writes (align_prints x) ?w1"
  have a1: "advances 70 90 (terminal w) (terminal ?w1)"
    using advances_writes_Capture [of ?w0 align_progress "load_align_prints x"]
      steady_prefix [OF assms(1)]
    by (simp add: progress_bounds)
  have a2: "advances 70 90 (terminal w) (terminal ?w2)"
    using advances_writes_Capture [of ?w0 align_progress "load_align_prints x @ align_prints x"]
      assms(1)
    by (simp add: progress_bounds writes_append)
  have handler: "advances 70 90 (terminal w)
      (terminal (to_terminal (ProgressCapture_finish align_progress)
         (print s (w'\<lparr>sys_stdout := sys_stdout w\<rparr>))))"
    if "advances 70 90 (terminal w) (terminal w')" for s w'
  proof (rule advances_then_bar [OF that])
    show "rendered (terminal (to_terminal (ProgressCapture_finish align_progress)
         (print s (w'\<lparr>sys_stdout := sys_stdout w\<rparr>)))) = rendered (terminal w') @ [90]"
      using assms(2) by (simp add: rendered_finish progress_bounds rendered_print_Terminal)
  qed simp
  have normal: "advances 70 90 (terminal w)
      (terminal (to_terminal (ProgressCapture_finish align_progress) (w'\<lparr>sys_stdout := sys_stdout w\<rparr>)))"
    if "advances 70 90 (terminal w) (terminal w')" for w'
    by (rule advances_then_bar [OF that]) (simp_all add: rendered_finish progress_bounds)
  show ?thesis
  proof (cases "whisperx_load_align_model x")
    case (Inl e)
    then show ?thesis
      using a1 handler [OF a1]
      by (cases "is_Exception e") (simp_all add: alignment_phase_def seq_def Let_def)
  next
    case (Inr u)
    show ?thesis
    proof (cases "whisperx_align x")
      case (Inl e)
      then show ?thesis
        using Inr a2 handler [OF a2]
        by (cases "is_Exception e") (simp_all add: alignment_phase_def seq_def Let_def)
    next
      case (Inr aligned)
      then show ?thesis
        using \<open>whisperx_load_align_model x = Inr u\<close> normal [OF a2]
        by (simp add: alignment_phase_def seq_def Let_def)
    qed
  qed
qed

lemma advances_list:
  "rendered t' = rendered t @ d \<Longrightarrow> sorted d \<Longrightarrow> list_all (\<lambda>p. lo \<le> p \<and> p \<le> hi) d \<Longrightarrow>
   advances lo hi t t'"
  unfolding advances_def by blast

lemma run_transcription_after_first_bar:
  assumes start: "sys_stdout w = Terminal"
    and inf: "steady (transcribe_prints x)"
    and ali: "steady (load_align_prints x @ align_prints x)"
  shows "advances 0 90 (terminal (print_progress_bar ''Model laden'' 0.00 w))
      (terminal (snd (run_transcription x audio_path model_size language w)))"
proof -
  let ?w1 = "print_progress_bar ''Model laden'' 0.00 w"
  let ?w3 = "print_progress_bar ''Audio laden'' 10.00
      (finish_progress_bar (print_progress_bar ''Model laden'' 10.00 ?w1))"
  let ?w4 = "finish_progress_bar (print_progress_bar ''Audio laden'' 15.00 ?w3)"
  have r3: "rendered (terminal ?w3) = rendered (terminal ?w1) @ [10, 10]"
    using start
    by (simp add: rendered_print_progress_bar_Terminal rendered_finish_progress_bar_Terminal)
  have r4: "rendered (terminal ?w4) = rendered (terminal ?w1) @ [10, 10, 15]"
    using start
    by (simp add: rendered_print_progress_bar_Terminal rendered_finish_progress_bar_Terminal)
  have a1: "advances 0 90 (terminal ?w1) (terminal ?w1)"
    by (rule advances_same) simp
  have a3: "advances 0 90 (terminal ?w1) (terminal ?w3)"
    by (rule advances_list [OF r3]) simp_all
  have a4: "advances 0 15 (terminal ?w1) (terminal ?w4)"
    by (rule advances_list [OF r4]) simp_all
  obtain ri wi where wi: "inference_phase x ?w4 = (ri, wi)" by (cases "inference_phase x ?w4")
  have si: "sys_stdout wi = Terminal"
    using inference_phase_restores [of x ?w4] wi start by simp
  have "advances 15 70 (terminal ?w4) (terminal wi)"
    using inference_phase_advances [OF inf, of ?w4] wi by simp
  with a4 have ai: "advances 0 70 (terminal ?w1) (terminal wi)"
    by (rule advances_trans) simp_all
  show ?thesis
  proof (cases "whisperx_load_model x")
    case (Inl e)
    then show ?thesis using a1 by (simp add: run_transcription_def seq_def Let_def)
  next
    case loaded: (Inr u)
    show ?thesis
    proof (cases "whisperx_load_audio x")
      case (Inl e)
      then show ?thesis using loaded a3 by (simp add: run_transcription_def seq_def Let_def)
    next
      case audio: (Inr u')
      show ?thesis
      proof (cases ri)
        case (Inl e)
        then show ?thesis
          using loaded audio wi advances_widen [OF ai, of 0 90]
          by (simp add: run_transcription_def seq_def Let_def)
      next
        case (Inr r)
        obtain segments reported where r: "r = (segments, reported)" by (cases r)
        let ?w9 = "print (''  Taal: '' @ (case reported of Some l \<Rightarrow> l | None \<Rightarrow> language)
            @ '', Segmenten: '' @ str_nat (length segments)) wi"
        have s9: "sys_stdout ?w9 = Terminal" using si by simp
        have a9: "advances 0 70 (terminal ?w1) (terminal ?w9)"
          by (rule advances_then_same [OF ai]) (simp add: rendered_print_Terminal si)
        have "advances 70 90 (terminal ?w9) (terminal (snd (alignment_phase x segments ?w9)))"
          by (rule alignment_phase_advances [OF ali s9])
        with a9 have "advances 0 90 (terminal ?w1)
            (terminal (snd (alignment_phase x segments ?w9)))"
          by (rule advances_trans) simp_all
        then show ?thesis
          using loaded audio wi Inr r
          by (simp add: run_transcription_def snd_seq Let_def split: sum.splits)
      qed
    qed
  qed
qed

lemma run_transcription_advances:
  assumes start: "sys_stdout w = Terminal"
    and inf: "steady (transcribe_prints x)"
    and ali: "steady (load_align_prints x @ align_prints x)"
  shows "advances 0 90 (terminal w) (terminal (snd (run_transcription x audio_path model_size language w)))"
proof -
  have "advances 0 0 (terminal w) (terminal (print_progress_bar ''Model laden'' 0.00 w))"
    by (rule advances_bar) (simp add: rendered_print_progress_bar_Terminal start)
  then show ?thesis
    by (rule advances_trans [OF _ run_transcription_after_first_bar [OF assms] ]) simp_all
qed

lemma run_transcription_starts_at_zero:
  assumes start: "sys_stdout w = Terminal"
    and inf: "steady (transcribe_prints x)"
    and ali: "steady (load_align_prints x @ align_prints x)"
  shows "\<exists>d. rendered (terminal (snd (run_transcription x audio_path model_size language w)))
      = rendered (terminal w) @ 0 # d"
  using run_transcription_after_first_bar [OF assms, of audio_path model_size language]
  by (auto simp: advances_def rendered_print_progress_bar_Terminal start)

lemma alignment_phase_stdout:
  assumes "sys_stdout w = Terminal"
  shows "sys_stdout (snd (alignment_phase x segs w)) = Terminal
      \<or> (sys_stdout (snd (alignment_phase x segs w)) = Capture align_progress
          \<and> (\<exists>e. fst (alignment_phase x segs w) = Inl e \<and> \<not> is_Exception e))"
  using assms
  by (auto simp: alignment_phase_def seq_def Let_def split: sum.splits prod.splits)

lemma run_transcription_stdout:
  assumes "sys_stdout w = Terminal"
  shows "sys_stdout (snd (run_transcription x audio_path model_size language w)) = Terminal
      \<or> (sys_stdout (snd (run_transcription x audio_path model_size language w)) = Capture align_progress
          \<and> (\<exists>e. fst (run_transcription x audio_path model_size language w) = Inl e
                \<and> \<not> is_Exception e))"
proof -
  let ?w4 = "finish_progress_bar (print_progress_bar ''Audio laden'' 15.00
      (print_progress_bar ''Audio laden'' 10.00
      (finish_progress_bar (print_progress_bar ''Model laden'' 10.00
         (print_progress_bar ''Model laden'' 0.00 w)))))"
  obtain ri wi where wi: "inference_phase x ?w4 = (ri, wi)" by (cases "inference_phase x ?w4")
  have si: "sys_stdout wi = Terminal"
    using inference_phase_restores [of x ?w4] wi assms by simp
  show ?thesis
  proof (cases "whisperx_load_model x")
    case (Inl e)
    then show ?thesis using assms by (simp add: run_transcription_def seq_def Let_def)
  next
    case loaded: (Inr u)
    show ?thesis
    proof (cases "whisperx_load_audio x")
      case (Inl e)
      then show ?thesis using loaded assms by (simp add: run_transcription_def seq_def Let_def)
    next
      case audio: (Inr u')
      show ?thesis
      proof (cases ri)
        case (Inl e)
        then show ?thesis
          using loaded audio wi si by (simp add: run_transcription_def seq_def Let_def)
      next
        case (Inr r)
        obtain segments reported where r: "r = (segments, reported)" by (cases r)
        let ?w9 = "print (''  Taal: '' @ (case reported of Some l \<Rightarrow> l | None \<Rightarrow> language)
            @ '', Segmenten: '' @ str_nat (length segments)) wi"
        have s9: "sys_stdout ?w9 = Terminal" using si by simp
        from alignment_phase_stdout [OF s9, of x segments]
        show ?thesis
          using loaded audio wi Inr r
          by (auto simp: run_transcription_def snd_seq fst_seq Let_def split: sum.splits)
      qed
    qed
  qed
qed

lemma compress_audio_if_needed_rendered:
  "sys_stdout w = Terminal \<Longrightarrow>
   rendered (terminal (snd (compress_audio_if_needed x p t w))) = rendered (terminal w)"
  by (simp add: compress_audio_if_needed_def snd_seq Let_def rendered_print_Terminal
      split: sum.splits)

lemma prepare_audio_rendered:
  "\<not> is_video (file_suffix src) \<Longrightarrow> sys_stdout w = Terminal \<Longrightarrow>
   rendered (terminal (snd (prepare_audio x src ds t w))) = rendered (terminal w)"
  by (simp add: prepare_audio_def snd_seq Let_def compress_audio_if_needed_rendered
      split: sum.splits)

lemma export_to_word_terminal [simp]:
  "terminal (snd (export_to_word x segs md p w)) = terminal w"
  by (simp add: export_to_word_def snd_seq Let_def split: sum.splits)

lemma export_step_advances:
  assumes "sys_stdout w = Terminal"
  shows "advances 90 100 (terminal w) (terminal (snd (export_step x src m l ds segs w)))"
proof -
  have "rendered (terminal (snd (export_step x src m l ds segs w))) = rendered (terminal w) @ [90]
      \<or> rendered (terminal (snd (export_step x src m l ds segs w))) = rendered (terminal w) @ [90, 100]"
    using assms
    by (simp add: export_step_def snd_seq Let_def rendered_print_Terminal
        rendered_print_newline_Terminal rendered_print_progress_bar_Terminal
        rendered_finish_progress_bar_Terminal split: sum.splits)
  then show ?thesis
    by (auto intro: advances_list [where d = "[90]"] advances_list [where d = "[90, 100]"])
qed

lemma processing_advances:
  assumes audio: "\<not> is_video (file_suffix src)"
    and start: "sys_stdout w = Terminal"
    and inf: "steady (transcribe_prints x)"
    and ali: "steady (load_align_prints x @ align_prints x)"
  shows "advances 0 100 (terminal w) (terminal (snd (processing x src m lc lname ds t w)))"
    and "sys_stdout (snd (processing x src m lc lname ds t w)) = Terminal
      \<or> (sys_stdout (snd (processing x src m lc lname ds t w)) = Capture align_progress
          \<and> (\<exists>e. fst (processing x src m lc lname ds t w) = Inl e \<and> \<not> is_Exception e))"
proof -
  let ?w0 = "print_newline (print ''Verwerking gestart...'' w)"
  have s0: "sys_stdout ?w0 = Terminal" using start by simp
  have r0: "rendered (terminal ?w0) = rendered (terminal w)"
    using start by (simp add: rendered_print_newline_Terminal rendered_print_Terminal)
  obtain rp wp where p: "prepare_audio x src ds t ?w0 = (rp, wp)"
    by (cases "prepare_audio x src ds t ?w0")
  have sp: "sys_stdout wp = Terminal"
    using prepare_audio_frame(1) [of x src ds t ?w0] p s0 by simp
  have rp: "rendered (terminal wp) = rendered (terminal w)"
    using prepare_audio_rendered [OF audio s0, of x ds t] p r0 by simp
  have both: "advances 0 100 (terminal w) (terminal (snd (processing x src m lc lname ds t w)))
    \<and> (sys_stdout (snd (processing x src m lc lname ds t w)) = Terminal
      \<or> (sys_stdout (snd (processing x src m lc lname ds t w)) = Capture align_progress
          \<and> (\<exists>e. fst (processing x src m lc lname ds t w) = Inl e \<and> \<not> is_Exception e)))"
  proof (cases rp)
    case (Inl e)
    then show ?thesis
      using p sp rp by (simp add: processing_def seq_def Let_def advances_same)
  next
    case (Inr a)
    obtain audio_path ds' where a: "a = (audio_path, ds')" by (cases a)
    obtain rr wr where r: "run_transcription x audio_path m lc wp = (rr, wr)"
      by (cases "run_transcription x audio_path m lc wp")
    have "advances 0 90 (terminal wp) (terminal wr)"
      using run_transcription_advances [OF sp inf ali, of audio_path m lc] r by simp
    then have ar: "advances 0 90 (terminal w) (terminal wr)"
      using rp by (simp add: advances_def)
    have sr: "sys_stdout wr = Terminal
      \<or> (sys_stdout wr = Capture align_progress \<and> (\<exists>e. rr = Inl e \<and> \<not> is_Exception e))"
      using run_transcription_stdout [OF sp, of x audio_path m lc] r by simp
    show ?thesis
    proof (cases rr)
      case (Inl e)
      then show ?thesis
        using p Inr a r sr advances_widen [OF ar, of 0 100]
        by (simp add: processing_def seq_def Let_def)
    next
      case res: (Inr v)
      obtain segments lang where v: "v = (segments, lang)" by (cases v)
      from sr res have st: "sys_stdout wr = Terminal" by simp
      have "advances 90 100 (terminal wr) (terminal (snd (export_step x src m lname ds' segments wr)))"
        by (rule export_step_advances [OF st])
      with ar have "advances 0 100 (terminal w)
          (terminal (snd (export_step x src m lname ds' segments wr)))"
        by (rule advances_trans) simp_all
      then show ?thesis
        using p Inr a r res v st
        by (simp add: processing_def seq_def Let_def)
    qed
  qed
  from both show "advances 0 100 (terminal w) (terminal (snd (processing x src m lc lname ds t w)))"
    by simp
  from both show "sys_stdout (snd (processing x src m lc lname ds t w)) = Terminal
      \<or> (sys_stdout (snd (processing x src m lc lname ds t w)) = Capture align_progress
          \<and> (\<exists>e. fst (processing x src m lc lname ds t w) = Inl e \<and> \<not> is_Exception e))"
    by simp
qed

lemma main_processing_rendered:
  assumes "sys_stdout (snd (processing x src m lc lname ds (mkdtemp x) (w\<lparr>tempdirs := mkdtemp x # tempdirs w\<rparr>)))
        = Terminal
      \<or> (sys_stdout (snd (processing x src m lc lname ds (mkdtemp x) (w\<lparr>tempdirs := mkdtemp x # tempdirs w\<rparr>)))
            = Capture align_progress
          \<and> (\<exists>e. fst (processing x src m lc lname ds (mkdtemp x) (w\<lparr>tempdirs := mkdtemp x # tempdirs w\<rparr>))
                 = Inl e \<and> \<not> is_Exception e))"
  shows "rendered (terminal (snd (main_processing x src m lc lname ds w))) =
      rendered (terminal (snd (processing x src m lc lname ds (mkdtemp x)
        (w\<lparr>tempdirs := mkdtemp x # tempdirs w\<rparr>))))"
proof -
  let ?p = "processing x src m lc lname ds (mkdtemp x) (w\<lparr>tempdirs := mkdtemp x # tempdirs w\<rparr>)"
  obtain r w' where p: "?p = (r, w')" by (cases ?p)
  from assms p have s: "sys_stdout w' = Terminal
      \<or> (sys_stdout w' = Capture align_progress \<and> (\<exists>e. r = Inl e \<and> \<not> is_Exception e))"
    by simp
  have "rendered (terminal (snd (main_processing x src m lc lname ds w))) = rendered (terminal w')"
  proof (cases r)
    case (Inr u)
    then show ?thesis
      using p by (simp add: main_processing_def Let_def split: sum.splits)
  next
    case (Inl e)
    show ?thesis
    proof (cases e)
      case (Exception msg)
      with Inl s have "sys_stdout w' = Terminal" by auto
      then show ?thesis
        using p Inl Exception
        by (simp add: main_processing_def Let_def rendered_print_Terminal split: sum.splits)
    next
      case KeyboardInterrupt
      from s show ?thesis
      proof
        assume "sys_stdout w' = Terminal"
        then show ?thesis
          using p Inl KeyboardInterrupt
          by (simp add: main_processing_def Let_def rendered_print_Terminal split: sum.splits)
      next
        assume "sys_stdout w' = Capture align_progress \<and> (\<exists>e. r = Inl e \<and> \<not> is_Exception e)"
        then have "sys_stdout w' = Capture align_progress" by simp
        then show ?thesis
          using p Inl KeyboardInterrupt
          by (simp add: main_processing_def Let_def print_interrupt_message_captured
              split: sum.splits)
      qed
    next
      case SystemExit
      then show ?thesis
        using p Inl by (simp add: main_processing_def Let_def split: sum.splits)
    qed
  qed
  with p show ?thesis by simp
qed

lemma main_info_rendered:
  "sys_stdout w = Terminal \<Longrightarrow>
   rendered (terminal (snd (main_info x src m w))) = rendered (terminal w)"
  by (simp add: main_info_def snd_seq Let_def case_prod_beta rendered_print_Terminal
      rendered_print_newline_Terminal split: sum.splits option.splits)

text \<open>
  Claim C6, as amended. A run from a terminal that shows no bar yet, on a file that is not
  a video, in which the local percentages found in the output of inference never decrease
  and stay at or below 100, and likewise those found in the output of the two alignment
  calls: the percentages rendered by the whole of \<^verbatim>\<open>main\<close> are in non-decreasing order,
  whichever way the run ends.
\<close>

theorem progress_non_decreasing_without_video:
  assumes "\<not> is_video (file_suffix src)"
    and "sys_stdout w = Terminal" and "rendered (terminal w) = []"
    and "steady (transcribe_prints x)"
    and "steady (load_align_prints x @ align_prints x)"
  shows "sorted (rendered (terminal (snd (main x src model_size language_code language_name w))))"
proof -
  obtain ri wi where i: "main_info x src model_size w = (ri, wi)"
    by (cases "main_info x src model_size w")
  have si: "sys_stdout wi = Terminal"
    using main_info_frame(1) [of x src model_size w] i assms(2) by simp
  have ri: "rendered (terminal wi) = []"
    using main_info_rendered [OF assms(2), of x src model_size] i assms(3) by simp
  show ?thesis
  proof (cases ri)
    case (Inl e)
    then show ?thesis using i ri by (simp add: main_def seq_def)
  next
    case (Inr ds)
    let ?w0 = "wi\<lparr>tempdirs := mkdtemp x # tempdirs wi\<rparr>"
    let ?p = "processing x src model_size language_code language_name ds (mkdtemp x) ?w0"
    have s0: "sys_stdout ?w0 = Terminal" using si by simp
    have "advances 0 100 (terminal ?w0) (terminal (snd ?p))"
      by (rule processing_advances(1) [OF assms(1) s0 assms(4,5)])
    then have "sorted (rendered (terminal (snd ?p)))"
      by (rule advances_sorted) (simp add: ri)
    moreover have "rendered (terminal (snd (main_processing x src model_size language_code
        language_name ds wi))) = rendered (terminal (snd ?p))"
      by (rule main_processing_rendered) (rule processing_advances(2) [OF assms(1) s0 assms(4,5)])
    ultimately show ?thesis using i Inr by (simp add: main_def seq_def)
  qed
qed

section \<open>A video run\<close>

lemma advances_grows: "advances lo hi t t' \<Longrightarrow> \<exists>d. rendered t' = rendered t @ d"
  unfolding advances_def by blast

lemma convert_video_to_audio_ends_at_15:
  assumes "sys_stdout w = Terminal" and "ffprobe x (file_path video) = Numeric d"
    and "ffmpeg_exit x = Inr 0"
  shows "fst (convert_video_to_audio x video t w) = Inr (path_join t (file_stem video @ ''.wav''))"
    and "\<exists>a. rendered (terminal (snd (convert_video_to_audio x video t w))) = a @ [15]"
  using assms
  by (simp_all add: convert_video_to_audio_def fst_seq snd_seq get_duration_ffprobe_def Let_def
      rendered_print_progress_bar_Terminal rendered_finish_progress_bar_Terminal)

lemma prepare_audio_video:
  assumes "is_video (file_suffix src)" and "sys_stdout w = Terminal"
    and "ffprobe x = (\<lambda>_. Numeric d)" and "ffmpeg_exit x = Inr 0"
    and "os_getsize x = (\<lambda>_. Inr n)" and "n < 500 * 1024 * 1024"
  shows "\<exists>v. fst (prepare_audio x src ds t w) = Inr v"
    and "\<exists>a. rendered (terminal (snd (prepare_audio x src ds t w))) = a @ [15]"
proof -
  let ?w0 = "print ''  Video gedetecteerd, audio extraheren...'' w"
  have s0: "sys_stdout ?w0 = Terminal" using assms(2) by simp
  have p: "ffprobe x (file_path src) = Numeric d" using assms(3) by simp
  obtain rc wc where c: "convert_video_to_audio x src t ?w0 = (rc, wc)"
    by (cases "convert_video_to_audio x src t ?w0")
  from convert_video_to_audio_ends_at_15 [OF s0 p assms(4), of t] c
  have rc: "rc = Inr (path_join t (file_stem src @ ''.wav''))"
    and "\<exists>a. rendered (terminal wc) = a @ [15]" by simp_all
  then obtain a where a: "rendered (terminal wc) = a @ [15]" by blast
  have cmp: "compress_audio_if_needed x (path_join t (file_stem src @ ''.wav'')) t wc
      = (Inr (path_join t (file_stem src @ ''.wav'')), wc)"
    by (rule compress_below [OF _ assms(6)]) (simp add: assms(5))
  have fs: "fst (prepare_audio x src ds t w) = Inr (path_join t (file_stem src @ ''.wav''),
        if d \<noteq> 0 then format_timestamp d else ds)"
    and sn: "snd (prepare_audio x src ds t w) = wc"
    using assms(1,3) c rc cmp
    by (simp_all add: prepare_audio_def seq_def get_duration_ffprobe_def Let_def)
  from fs show "\<exists>v. fst (prepare_audio x src ds t w) = Inr v" by blast
  from sn a show "\<exists>a. rendered (terminal (snd (prepare_audio x src ds t w))) = a @ [15]" by simp
qed

lemma not_sorted_15_0: "\<not> sorted (a @ 15 # 0 # (b :: real list))"
  by (simp add: sorted_append)

lemma video_run_goes_back:
  assumes video: "is_video (file_suffix src)" and start: "sys_stdout w = Terminal"
    and probe: "ffprobe x = (\<lambda>_. Numeric d)" and exit: "ffmpeg_exit x = Inr 0"
    and size: "os_getsize x = (\<lambda>_. Inr n)" and small: "n < 500 * 1024 * 1024"
    and inf: "steady (transcribe_prints x)"
    and ali: "steady (load_align_prints x @ align_prints x)"
  shows "\<not> sorted (rendered (terminal (snd (main x src m lc lname w))))"
proof -
  obtain ri wi where i: "main_info x src m w = (ri, wi)" by (cases "main_info x src m w")
  have si: "sys_stdout wi = Terminal"
    using main_info_frame(1) [of x src m w] i start by simp
  have "\<exists>ds. fst (main_info x src m w) = Inr ds"
    using probe size
    by (simp add: main_info_def fst_seq get_duration_ffprobe_def Let_def case_prod_beta)
  then obtain ds where ds: "ri = Inr ds" using i by auto
  let ?w0 = "wi\<lparr>tempdirs := mkdtemp x # tempdirs wi\<rparr>"
  let ?w1 = "print_newline (print ''Verwerking gestart...'' ?w0)"
  let ?p = "processing x src m lc lname ds (mkdtemp x) ?w0"
  have s1: "sys_stdout ?w1 = Terminal" using si by simp
  obtain rp wp where p: "prepare_audio x src ds (mkdtemp x) ?w1 = (rp, wp)"
    by (cases "prepare_audio x src ds (mkdtemp x) ?w1")
  from prepare_audio_video [OF video s1 probe exit size small, of ds "mkdtemp x"] p
  obtain v a where v: "rp = Inr v" and a: "rendered (terminal wp) = a @ [15]" by auto
  obtain audio_path ds' where v': "v = (audio_path, ds')" by (cases v)
  have sp: "sys_stdout wp = Terminal"
    using prepare_audio_frame(1) [of x src ds "mkdtemp x" ?w1] p s1 by simp
  obtain rr wr where r: "run_transcription x audio_path m lc wp = (rr, wr)"
    by (cases "run_transcription x audio_path m lc wp")
  from run_transcription_starts_at_zero [OF sp inf ali, of audio_path m lc] r a
  obtain d0 where d0: "rendered (terminal wr) = a @ [15] @ 0 # d0" by auto
  have sr: "sys_stdout wr = Terminal
      \<or> (sys_stdout wr = Capture align_progress \<and> (\<exists>e. rr = Inl e \<and> \<not> is_Exception e))"
    using run_transcription_stdout [OF sp, of x audio_path m lc] r by simp
  have "\<exists>d1. rendered (terminal (snd ?p)) = rendered (terminal wr) @ d1
      \<and> (sys_stdout (snd ?p) = Terminal
        \<or> (sys_stdout (snd ?p) = Capture align_progress
            \<and> (\<exists>e. fst ?p = Inl e \<and> \<not> is_Exception e)))"
  proof (cases rr)
    case (Inl e)
    then show ?thesis
      using p v v' r sr by (simp add: processing_def seq_def Let_def)
  next
    case (Inr u)
    obtain segments lang where u: "u = (segments, lang)" by (cases u)
    from sr Inr have st: "sys_stdout wr = Terminal" by simp
    from advances_grows [OF export_step_advances [OF st, of x src m lname ds' segments] ]
    show ?thesis
      using p v v' r Inr u st by (simp add: processing_def seq_def Let_def)
  qed
  then obtain d1 where d1: "rendered (terminal (snd ?p)) = rendered (terminal wr) @ d1"
    and sp': "sys_stdout (snd ?p) = Terminal
        \<or> (sys_stdout (snd ?p) = Capture align_progress
            \<and> (\<exists>e. fst ?p = Inl e \<and> \<not> is_Exception e))"
    by blast
  have "rendered (terminal (snd (main_processing x src m lc lname ds wi)))
      = rendered (terminal (snd ?p))"
    by (rule main_processing_rendered [OF sp'])
  then have "rendered (terminal (snd (main x src m lc lname w))) = a @ 15 # 0 # (d0 @ d1)"
    using i ds d1 d0 by (simp add: main_def seq_def)
  then show ?thesis by (simp only: not_sorted_15_0 not_False_eq_True)
qed

lemma steady_example:
  "steady (transcribe_prints example_env)"
  "steady (load_align_prints example_env @ align_prints example_env)"
  by (simp_all add: steady_def example_env_def match_pct_def is_digit_def py_float_def
      int_of_digits_def digit_val_def)

text \<open>
  Claim C6 as stated fails for a video: the conversion renders up to 15, and the model
  load that follows renders 0.
\<close>

theorem video_run_goes_back_to_zero:
  "\<not> sorted (rendered (terminal (snd (main example_env talk_mp4 ''medium'' ''nl'' ''Nederlands''
       initial_world))))"
proof (rule video_run_goes_back)
  show "is_video (file_suffix talk_mp4)" by (simp add: talk_mp4_def is_video_mp4)
  show "sys_stdout initial_world = Terminal" by (simp add: initial_world_def)
  show "ffprobe example_env = (\<lambda>_. Numeric 60)" by (simp add: example_env_def)
  show "ffmpeg_exit example_env = Inr 0" by (simp add: example_env_def)
  show "os_getsize example_env = (\<lambda>_. Inr 1000000)" by (simp add: example_env_def)
  show "(1000000::nat) < 500 * 1024 * 1024" by simp
  show "steady (transcribe_prints example_env)" by (rule steady_example)
  show "steady (load_align_prints example_env @ align_prints example_env)" by (rule steady_example)
qed

text \<open>The example run on an audio file.\<close>

theorem progress_non_decreasing_without_video_witness:
  "\<not> is_video (file_suffix talk_wav)
   \<and> sorted (rendered (terminal (snd (main example_env talk_wav ''medium'' ''nl'' ''Nederlands''
        initial_world))))"
proof -
  have a: "\<not> is_video (file_suffix talk_wav)" by (simp add: talk_wav_def is_video_wav)
  have b: "sys_stdout initial_world = Terminal" and c: "rendered (terminal initial_world) = []"
    by (simp_all add: initial_world_def)
  from progress_non_decreasing_without_video [OF a b c steady_example, of "''medium''" "''nl''"
      "''Nederlands''"] a
  show ?thesis by simp
qed

section \<open>More on the runs\<close>

text \<open>Without a positive duration the loop over the diagnostic stream renders nothing.\<close>

lemma conversion_lines_unknown:
  assumes "duration = None \<or> (\<exists>d. duration = Some d \<and> d \<le> 0)"
  shows "conversion_lines duration lines w = w"
proof (induction lines)
  case Nil
  show ?case by simp
next
  case (Cons line lines)
  have "conversion_line duration line w = w"
    using assms by (auto simp: conversion_line_def split: option.splits)
  with Cons show ?case by simp
qed

lemma convert_video_to_audio_unknown:
  assumes "ffprobe x (file_path video) = NonNumeric s
      \<or> (\<exists>d. ffprobe x (file_path video) = Numeric d \<and> d \<le> 0)"
    and "ffmpeg_exit x = Inr 0" and "sys_stdout w = Terminal"
  shows "fst (convert_video_to_audio x video t w) = Inr (path_join t (file_stem video @ ''.wav''))"
    and "rendered (terminal (snd (convert_video_to_audio x video t w))) = rendered (terminal w) @ [15]"
  using assms
  by (auto simp: convert_video_to_audio_def seq_def get_duration_ffprobe_def Let_def
      conversion_lines_unknown rendered_print_progress_bar_Terminal
      rendered_finish_progress_bar_Terminal)

text \<open>The message of the interruption is shown when \<^verbatim>\<open>sys.stdout\<close> is the terminal.\<close>

lemma main_processing_interrupted_visible:
  assumes "fst (processing x src m lc lname ds (mkdtemp x) (w\<lparr>tempdirs := mkdtemp x # tempdirs w\<rparr>))
      = Inl KeyboardInterrupt"
    and "sys_stdout (snd (processing x src m lc lname ds (mkdtemp x)
      (w\<lparr>tempdirs := mkdtemp x # tempdirs w\<rparr>))) = Terminal"
  shows "terminal (snd (main_processing x src m lc lname ds w)) =
      terminal (snd (processing x src m lc lname ds (mkdtemp x) (w\<lparr>tempdirs := mkdtemp x # tempdirs w\<rparr>)))
      @ [Text ''\<newline>\<newline>  Afgebroken door gebruiker.'', Text ''\<newline>'']"
  using assms
  by (simp add: main_processing_def Let_def case_prod_beta terminal_print_Terminal
      split: sum.splits)

text \<open>The rendered sequence follows the local percentages.\<close>

lemma inference_phase_rendered:
  "rendered (terminal (snd (inference_phase x w))) =
     rendered (terminal w) @ map (rescale progress) (local_pcts (transcribe_prints x))
       @ (case model_transcribe x of Inl e \<Rightarrow> [] | Inr r \<Rightarrow> [70])"
  by (simp add: inference_phase_def Let_def rendered_writes_Capture rendered_finish progress_bounds
      split: sum.splits)

lemma alignment_phase_rendered:
  assumes "whisperx_load_align_model x = Inr ()" and "whisperx_align x = Inr aligned"
  shows "rendered (terminal (snd (alignment_phase x segments w))) =
     rendered (terminal w)
       @ map (rescale align_progress) (local_pcts (load_align_prints x @ align_prints x)) @ [90]"
  using assms
  by (simp add: alignment_phase_def seq_def Let_def rendered_writes_Capture rendered_finish
      progress_bounds local_pcts_append)

lemma run_transcription_rendered:
  assumes "sys_stdout w = Terminal"
    and "whisperx_load_model x = Inr ()" and "whisperx_load_audio x = Inr ()"
    and "model_transcribe x = Inr (segments, reported)"
    and "whisperx_load_align_model x = Inr ()" and "whisperx_align x = Inr aligned"
  shows "rendered (terminal (snd (run_transcription x audio_path model_size language w))) =
     rendered (terminal w) @ [0, 10, 10, 15]
       @ map (rescale progress) (local_pcts (transcribe_prints x)) @ [70]
       @ map (rescale align_progress) (local_pcts (load_align_prints x @ align_prints x)) @ [90]"
    and "fst (run_transcription x audio_path model_size language w) =
      Inr (aligned, case reported of Some l \<Rightarrow> l | None \<Rightarrow> language)"
    and "sys_stdout (snd (run_transcription x audio_path model_size language w)) = Terminal"
proof -
  let ?w4 = "finish_progress_bar (print_progress_bar ''Audio laden'' 15.00
      (print_progress_bar ''Audio laden'' 10.00
      (finish_progress_bar (print_progress_bar ''Model laden'' 10.00
         (print_progress_bar ''Model laden'' 0.00 w)))))"
  have r4: "rendered (terminal ?w4) = rendered (terminal w) @ [0, 10, 10, 15]"
    using assms(1)
    by (simp add: rendered_print_progress_bar_Terminal rendered_finish_progress_bar_Terminal)
  obtain wi where wi: "inference_phase x ?w4 = (Inr (segments, reported), wi)"
    using inference_phase_result [of x ?w4] assms(4) by (cases "inference_phase x ?w4") simp
  have si: "sys_stdout wi = Terminal"
    using inference_phase_restores [of x ?w4] wi assms(1) by simp
  have ri: "rendered (terminal wi) = rendered (terminal w) @ [0, 10, 10, 15]
       @ map (rescale progress) (local_pcts (transcribe_prints x)) @ [70]"
    using inference_phase_rendered [of x ?w4] wi r4 assms(4) by simp
  let ?w9 = "print (''  Taal: '' @ (case reported of Some l \<Rightarrow> l | None \<Rightarrow> language)
      @ '', Segmenten: '' @ str_nat (length segments)) wi"
  have r9: "rendered (terminal ?w9) = rendered (terminal wi)"
    using si by (simp add: rendered_print_Terminal)
  have run: "run_transcription x audio_path model_size language w =
      (case alignment_phase x segments ?w9 of
         (Inl e, w') \<Rightarrow> (Inl e, w')
       | (Inr al, w') \<Rightarrow> (Inr (al, case reported of Some l \<Rightarrow> l | None \<Rightarrow> language), w'))"
    using assms(2,3) wi
    by (simp add: run_transcription_def seq_def Let_def split: sum.splits prod.splits)
  have fa: "fst (alignment_phase x segments ?w9) = Inr aligned"
    using assms(5,6) by (simp add: alignment_phase_def seq_def Let_def)
  have sa: "sys_stdout (snd (alignment_phase x segments ?w9)) = Terminal"
    using alignment_phase_restores [of x segments ?w9] fa si by simp
  have ra: "rendered (terminal (snd (alignment_phase x segments ?w9))) = rendered (terminal wi)
       @ map (rescale align_progress) (local_pcts (load_align_prints x @ align_prints x)) @ [90]"
    using alignment_phase_rendered [OF assms(5,6), of segments ?w9] r9 by simp
  obtain wa where wa: "alignment_phase x segments ?w9 = (Inr aligned, wa)"
    using fa by (cases "alignment_phase x segments ?w9") simp
  from run wa ra ri show "rendered (terminal (snd (run_transcription x audio_path model_size language w))) =
     rendered (terminal w) @ [0, 10, 10, 15]
       @ map (rescale progress) (local_pcts (transcribe_prints x)) @ [70]
       @ map (rescale align_progress) (local_pcts (load_align_prints x @ align_prints x)) @ [90]"
    by simp
  from run wa show "fst (run_transcription x audio_path model_size language w) =
      Inr (aligned, case reported of Some l \<Rightarrow> l | None \<Rightarrow> language)" by simp
  from run wa sa show "sys_stdout (snd (run_transcription x audio_path model_size language w)) = Terminal"
    by simp
qed

lemma export_step_rendered:
  assumes "sys_stdout w = Terminal" and "doc_save x = Inr ()"
  shows "rendered (terminal (snd (export_step x src m l ds segs w))) = rendered (terminal w) @ [90, 100]"
  using assms
  by (simp add: export_step_def export_to_word_def seq_def Let_def rendered_print_Terminal
      rendered_print_newline_Terminal rendered_print_progress_bar_Terminal
      rendered_finish_progress_bar_Terminal split: sum.splits)

text \<open>
  A run on a file that is not a video, in which every call succeeds: the percentages
  rendered are the bounds of the five phases in order, with the rescaled local
  percentages of inference and alignment in between.
\<close>

lemma successful_run_rendered:
  assumes "\<not> is_video (file_suffix src)" and "sys_stdout w = Terminal"
    and "os_getsize x = (\<lambda>_. Inr n)" and "ffprobe x = (\<lambda>_. Numeric d)"
    and "whisperx_load_model x = Inr ()" and "whisperx_load_audio x = Inr ()"
    and "model_transcribe x = Inr (segments, reported)"
    and "whisperx_load_align_model x = Inr ()" and "whisperx_align x = Inr aligned"
    and "doc_save x = Inr ()" and "ffmpeg_compress x = Inr ()"
  shows "rendered (terminal (snd (main x src m lc lname w))) =
     rendered (terminal w) @ [0, 10, 10, 15]
       @ map (rescale progress) (local_pcts (transcribe_prints x)) @ [70]
       @ map (rescale align_progress) (local_pcts (load_align_prints x @ align_prints x)) @ [90]
       @ [90, 100]"
proof -
  obtain ri wi where i: "main_info x src m w = (ri, wi)" by (cases "main_info x src m w")
  have si: "sys_stdout wi = Terminal"
    using main_info_frame(1) [of x src m w] i assms(2) by simp
  have ri: "rendered (terminal wi) = rendered (terminal w)"
    using main_info_rendered [OF assms(2), of x src m] i by simp
  have "\<exists>ds. fst (main_info x src m w) = Inr ds"
    using assms(3,4)
    by (simp add: main_info_def fst_seq get_duration_ffprobe_def Let_def case_prod_beta)
  then obtain ds where ds: "ri = Inr ds" using i by auto
  let ?w0 = "wi\<lparr>tempdirs := mkdtemp x # tempdirs wi\<rparr>"
  let ?w1 = "print_newline (print ''Verwerking gestart...'' ?w0)"
  let ?p = "processing x src m lc lname ds (mkdtemp x) ?w0"
  have s1: "sys_stdout ?w1 = Terminal" using si by simp
  have r1: "rendered (terminal ?w1) = rendered (terminal w)"
    using si ri by (simp add: rendered_print_newline_Terminal rendered_print_Terminal)
  obtain rp wp where p: "prepare_audio x src ds (mkdtemp x) ?w1 = (rp, wp)"
    by (cases "prepare_audio x src ds (mkdtemp x) ?w1")
  have sp: "sys_stdout wp = Terminal"
    using prepare_audio_frame(1) [of x src ds "mkdtemp x" ?w1] p s1 by simp
  have rp: "rendered (terminal wp) = rendered (terminal w)"
    using prepare_audio_rendered [OF assms(1) s1, of x ds "mkdtemp x"] p r1 by simp
  have "\<exists>v. fst (prepare_audio x src ds (mkdtemp x) ?w1) = Inr v"
    using assms(1,3,4,11)
    by (simp add: prepare_audio_def fst_seq compress_audio_if_needed_def snd_seq
        get_duration_ffprobe_def Let_def split: sum.splits)
  then obtain audio_path ds' where v: "rp = Inr (audio_path, ds')" using p by auto
  note run = run_transcription_rendered [OF sp assms(5,6,7,8,9), of audio_path m lc]
  obtain wr where r: "run_transcription x audio_path m lc wp =
      (Inr (aligned, case reported of Some l \<Rightarrow> l | None \<Rightarrow> lc), wr)"
    using run(2) by (cases "run_transcription x audio_path m lc wp") simp
  have sr: "sys_stdout wr = Terminal" using run(3) r by simp
  have rr: "rendered (terminal wr) = rendered (terminal w) @ [0, 10, 10, 15]
       @ map (rescale progress) (local_pcts (transcribe_prints x)) @ [70]
       @ map (rescale align_progress) (local_pcts (load_align_prints x @ align_prints x)) @ [90]"
    using run(1) r rp by simp
  have body: "?p = export_step x src m lname ds' aligned wr"
    using p v r by (simp add: processing_def seq_def Let_def)
  have re: "rendered (terminal (snd ?p)) = rendered (terminal wr) @ [90, 100]"
    unfolding body by (rule export_step_rendered [OF sr assms(10)])
  have se: "sys_stdout (snd ?p) = Terminal"
    unfolding body using sr by simp
  have "rendered (terminal (snd (main_processing x src m lc lname ds wi))) = rendered (terminal (snd ?p))"
    by (rule main_processing_rendered) (simp add: se)
  then show ?thesis using i ds re rr by (simp add: main_def seq_def)
qed

end
